theory Spec2Isabelle
  imports Main "HOL-Library.Word"
begin

unbundle bit_operations_syntax

section \<open>Encryption service (server/lib/encryption.js)\<close>

text \<open>
  Buffers are lists of bytes. The service calls into Node's \<open>crypto\<close> module; the
  module is not part of the repository, so its primitives are the fields of a record
  that every function of the service takes as its first argument:
  \<^item> \<open>gcm_seal password plaintext\<close> is what a cipher object made by
    \<open>crypto.createCipher('aes-256-gcm', password, options)\<close> produces from
    \<open>update\<close>, \<open>final\<close> and \<open>getAuthTag\<close>: the ciphertext and the tag;
  \<^item> \<open>gcm_open password tag ciphertext\<close> is what a decipher object made by
    \<open>crypto.createDecipher\<close> returns from \<open>setAuthTag\<close>, \<open>update\<close> and
    \<open>final\<close>: the plaintext, or \<open>None\<close> when one of them throws (a tag of an
    invalid length, a failed authentication);
  \<^item> \<open>from_base64\<close> and \<open>to_base64\<close> are \<open>Buffer.from(s, 'base64')\<close> and
    \<open>buf.toString('base64')\<close>;
  \<^item> \<open>sha256_hex\<close> is \<open>createHash('sha256').update(s).digest('hex')\<close>.

  \<open>createCipher\<close> and \<open>createDecipher\<close> are Node's password-based constructors:
  their signature is \<open>(algorithm, password, options)\<close>, and both key and nonce are
  derived from the password. The third argument is an options object; the service
  passes its 16 random bytes there, and they take no part in the computation.
\<close>

type_synonym bytes = "8 word list"

record crypto_lib =
  gcm_seal :: "bytes \<Rightarrow> bytes \<Rightarrow> bytes \<times> bytes"
  gcm_open :: "bytes \<Rightarrow> bytes \<Rightarrow> bytes \<Rightarrow> bytes option"
  from_base64 :: "string \<Rightarrow> bytes"
  to_base64 :: "bytes \<Rightarrow> string"
  sha256_hex :: "string \<Rightarrow> string"

datatype crypto_error = Encryption_failed | Decryption_failed

definition ivLength :: nat where
  "ivLength = 16"

definition tagLength :: nat where
  "tagLength = 16"

definition keyLength :: nat where
  "keyLength = 32"

text \<open>\<open>generateKey\<close>: \<open>rnd\<close> is the output of \<open>crypto.randomBytes(this.keyLength)\<close>.\<close>

definition generateKey :: "crypto_lib \<Rightarrow> bytes \<Rightarrow> string" where
  "generateKey lib rnd = to_base64 lib rnd"

text \<open>
  The cipher object of \<open>crypto.createCipher(algorithm, password, options)\<close>, run on a
  whole buffer: \<open>Buffer.concat([cipher.update(buffer), cipher.final()])\<close> and
  \<open>cipher.getAuthTag()\<close>.
\<close>

definition createCipher :: "crypto_lib \<Rightarrow> bytes \<Rightarrow> bytes \<Rightarrow> bytes \<Rightarrow> bytes \<times> bytes" where
  "createCipher lib password options buffer = gcm_seal lib password buffer"

definition createDecipher ::
  "crypto_lib \<Rightarrow> bytes \<Rightarrow> bytes \<Rightarrow> bytes \<Rightarrow> bytes \<Rightarrow> bytes option" where
  "createDecipher lib password options tag encrypted = gcm_open lib password tag encrypted"

text \<open>\<open>encryptFile\<close>: \<open>iv\<close> is the output of \<open>crypto.randomBytes(this.ivLength)\<close>.\<close>

definition encryptFile :: "crypto_lib \<Rightarrow> bytes \<Rightarrow> bytes \<Rightarrow> string \<Rightarrow> bytes" where
  "encryptFile lib iv buffer keyBase64 =
     (let key = from_base64 lib keyBase64;
          (encrypted, tag) = createCipher lib key iv buffer
      in iv @ tag @ encrypted)"

definition decryptFile :: "crypto_lib \<Rightarrow> bytes \<Rightarrow> string \<Rightarrow> crypto_error + bytes" where
  "decryptFile lib encryptedBuffer keyBase64 =
     (let key = from_base64 lib keyBase64;
          iv = take ivLength encryptedBuffer;
          tag = take tagLength (drop ivLength encryptedBuffer);
          encrypted = drop (ivLength + tagLength) encryptedBuffer
      in case createDecipher lib key iv tag encrypted of
           None \<Rightarrow> Inl Decryption_failed
         | Some decrypted \<Rightarrow> Inr decrypted)"

text \<open>\<open>hashApiKey\<close>.\<close>

definition hashApiKey :: "crypto_lib \<Rightarrow> string \<Rightarrow> string" where
  "hashApiKey lib apiKey = sha256_hex lib apiKey"

text \<open>Flipping bit \<open>n\<close> of a buffer (bit \<open>n mod 8\<close> of byte \<open>n div 8\<close>).\<close>

definition tamper_bit :: "nat \<Rightarrow> bytes \<Rightarrow> bytes" where
  "tamper_bit n buf =
     (if n div 8 < length buf
      then buf[n div 8 := (buf ! (n div 8)) XOR 2 ^ (n mod 8)]
      else buf)"

text \<open>
  A small instance of the library record, on which the hypotheses of the theorems
  below are discharged at concrete inputs: a one-byte running-key cipher with a
  sixteen-byte checksum as its tag. It stands for nothing in the repository.
\<close>

definition sample_pad :: "bytes \<Rightarrow> 8 word" where
  "sample_pad password = fold (+) password 0"

definition sample_tag :: "bytes \<Rightarrow> bytes \<Rightarrow> bytes" where
  "sample_tag password ct = replicate 16 (fold (+) ct (sample_pad password + 1))"

definition sample_lib :: crypto_lib where
  "sample_lib = \<lparr>
     gcm_seal = (\<lambda>password pt.
        (map (\<lambda>b. b XOR sample_pad password) pt,
         sample_tag password (map (\<lambda>b. b XOR sample_pad password) pt))),
     gcm_open = (\<lambda>password tag ct.
        if tag = sample_tag password ct
        then Some (map (\<lambda>b. b XOR sample_pad password) ct) else None),
     from_base64 = map (\<lambda>c. of_nat (of_char c)),
     to_base64 = map (\<lambda>b. char_of (unat b)),
     sha256_hex = rev
   \<rparr>"

section \<open>JavaScript values\<close>

text \<open>
  A request field that may be absent is a \<open>string option\<close> (\<open>None\<close> is
  \<open>undefined\<close>). \<open>truthy\<close> is JavaScript's truthiness on such a value: absent and
  the empty string are falsy. \<open>js_or a b\<close> is \<open>a || b\<close>.
\<close>

definition truthy :: "string option \<Rightarrow> bool" where
  "truthy v = (case v of None \<Rightarrow> False | Some s \<Rightarrow> s \<noteq> [])"

definition js_or :: "string option \<Rightarrow> string option \<Rightarrow> string option" where
  "js_or a b = (if truthy a then a else b)"

text \<open>
  A string is the list of the bytes of its UTF-8 encoding. \<open>parseInt(s)\<close> with no
  radix: leading white space is skipped, a sign is read, a \<open>0x\<close> prefix selects
  base 16, and the longest run of digits is the value; with no digit the result is
  \<open>NaN\<close>, here \<open>None\<close>. White space is JavaScript's \<open>WhiteSpace\<close> and
  \<open>LineTerminator\<close>: tab, line feed, vertical tab, form feed, carriage return and
  space, and U+00A0, U+1680, U+2000 to U+200A, U+2028, U+2029, U+202F, U+205F,
  U+3000 and U+FEFF. \<open>space_width s\<close> is the number of bytes of the white-space
  character \<open>s\<close> starts with, 0 when it starts with none.
\<close>

definition is_space :: "char \<Rightarrow> bool" where
  "is_space c = (c = CHR '' '' \<or> (of_char c :: nat) \<in> {9, 10, 11, 12, 13})"

definition wide_space :: "nat \<Rightarrow> nat \<Rightarrow> nat \<Rightarrow> bool" where
  "wide_space b0 b1 b2 =
     (b0 = 0xE1 \<and> b1 = 0x9A \<and> b2 = 0x80 \<or>
      b0 = 0xE2 \<and> b1 = 0x80 \<and> (0x80 \<le> b2 \<and> b2 \<le> 0x8A \<or> b2 = 0xA8 \<or> b2 = 0xA9 \<or> b2 = 0xAF) \<or>
      b0 = 0xE2 \<and> b1 = 0x81 \<and> b2 = 0x9F \<or>
      b0 = 0xE3 \<and> b1 = 0x80 \<and> b2 = 0x80 \<or>
      b0 = 0xEF \<and> b1 = 0xBB \<and> b2 = 0xBF)"

definition space_width :: "string \<Rightarrow> nat" where
  "space_width s =
     (case s of
        [] \<Rightarrow> 0
      | c0 # r1 \<Rightarrow>
          if is_space c0 then 1
          else (case r1 of
                  [] \<Rightarrow> 0
                | c1 # r2 \<Rightarrow>
                    if (of_char c0 :: nat) = 0xC2 \<and> (of_char c1 :: nat) = 0xA0 then 2
                    else (case r2 of
                            [] \<Rightarrow> 0
                          | c2 # r3 \<Rightarrow>
                              if wide_space (of_char c0) (of_char c1) (of_char c2) then 3
                              else 0)))"

text \<open>\<open>skip_space k s\<close>: \<open>s\<close> without its first \<open>k\<close> bytes and the white space after them.\<close>

fun skip_space :: "nat \<Rightarrow> string \<Rightarrow> string" where
  "skip_space k [] = []"
| "skip_space (Suc k) (c # cs) = skip_space k cs"
| "skip_space 0 (c # cs) =
     (if space_width (c # cs) = 0 then c # cs else skip_space (space_width (c # cs) - 1) cs)"

definition digit_val :: "char \<Rightarrow> nat option" where
  "digit_val c =
     (let n = (of_char c :: nat) in
      if 48 \<le> n \<and> n \<le> 57 then Some (n - 48)
      else if 97 \<le> n \<and> n \<le> 102 then Some (n - 87)
      else if 65 \<le> n \<and> n \<le> 70 then Some (n - 55)
      else None)"

definition is_digit :: "nat \<Rightarrow> char \<Rightarrow> bool" where
  "is_digit radix c = (case digit_val c of None \<Rightarrow> False | Some d \<Rightarrow> d < radix)"

definition digits_value :: "nat \<Rightarrow> string \<Rightarrow> int" where
  "digits_value radix ds =
     foldl (\<lambda>acc c. acc * int radix + int (case digit_val c of None \<Rightarrow> 0 | Some d \<Rightarrow> d)) 0 ds"

definition parse_digits :: "nat \<Rightarrow> string \<Rightarrow> int option" where
  "parse_digits radix s =
     (let ds = takeWhile (is_digit radix) s
      in if ds = [] then None else Some (digits_value radix ds))"

definition parse_unsigned :: "string \<Rightarrow> int option" where
  "parse_unsigned s =
     (case s of
        c0 # c1 # rest \<Rightarrow>
          if c0 = CHR ''0'' \<and> (c1 = CHR ''x'' \<or> c1 = CHR ''X'')
          then parse_digits 16 rest else parse_digits 10 s
      | _ \<Rightarrow> parse_digits 10 s)"

definition parseInt :: "string \<Rightarrow> int option" where
  "parseInt str =
     (let s = skip_space 0 str in
      case s of
        [] \<Rightarrow> None
      | c # rest \<Rightarrow>
          if c = CHR ''-'' then map_option uminus (parse_unsigned rest)
          else if c = CHR ''+'' then parse_unsigned rest
          else parse_unsigned s)"

text \<open>\<open>str.split(',')\<close>.\<close>

fun split_comma :: "string \<Rightarrow> string list" where
  "split_comma [] = [[]]"
| "split_comma (c # cs) =
     (if c = CHR '','' then [] # split_comma cs
      else (case split_comma cs of
              [] \<Rightarrow> [[c]]
            | w # ws \<Rightarrow> (c # w) # ws))"

section \<open>Time\<close>

text \<open>
  A point in time is the number of milliseconds since the epoch, as in a JavaScript
  \<open>Date\<close>. The server writes the expiry of a file into the database as the text of
  \<open>toISOString()\<close> and reads it back with \<open>new Date(text)\<close>, which returns the same
  number; a file row therefore carries the number, and the text is rendered where
  SQL compares it. A \<open>Date\<close> holds at most \<open>8.64e15\<close> milliseconds either side of
  the epoch; beyond that it is invalid, and \<open>toISOString\<close> throws a \<open>RangeError\<close>.
\<close>

definition valid_time :: "int \<Rightarrow> bool" where
  "valid_time t = (- 8640000000000000 \<le> t \<and> t \<le> 8640000000000000)"

text \<open>Year, month and day of a day number (days since 1970-01-01), proleptic Gregorian.\<close>

definition civil_from_days :: "int \<Rightarrow> int \<times> int \<times> int" where
  "civil_from_days days =
     (let z = days + 719468;
          era = z div 146097;
          doe = z mod 146097;
          yoe = (doe - doe div 1460 + doe div 36524 - doe div 146096) div 365;
          doy = doe - (365 * yoe + yoe div 4 - yoe div 100);
          mp = (5 * doy + 2) div 153;
          d = doy - (153 * mp + 2) div 5 + 1;
          m = (if mp < 10 then mp + 3 else mp - 9);
          y = yoe + era * 400 + (if m \<le> 2 then 1 else 0)
      in (y, m, d))"

definition digit_char :: "int \<Rightarrow> char" where
  "digit_char d = char_of (48 + nat (d mod 10))"

text \<open>\<open>pad n v\<close>: the last \<open>n\<close> decimal digits of \<open>v\<close>, zero-padded.\<close>

fun pad :: "nat \<Rightarrow> int \<Rightarrow> string" where
  "pad 0 v = []"
| "pad (Suc n) v = pad n (v div 10) @ [digit_char v]"

definition iso_year :: "int \<Rightarrow> string" where
  "iso_year y =
     (if 0 \<le> y \<and> y \<le> 9999 then pad 4 y
      else if y < 0 then CHR ''-'' # pad 6 (- y)
      else CHR ''+'' # pad 6 y)"

definition clock :: "int \<Rightarrow> string" where
  "clock ms =
     (let s = (ms mod 86400000) div 1000
      in pad 2 (s div 3600) @ '':'' @ pad 2 ((s div 60) mod 60) @ '':'' @ pad 2 (s mod 60))"

definition calendar_date :: "int \<Rightarrow> string" where
  "calendar_date ms =
     (case civil_from_days (ms div 86400000) of
        (y, m, d) \<Rightarrow> iso_year y @ ''-'' @ pad 2 m @ ''-'' @ pad 2 d)"

text \<open>\<open>new Date(ms).toISOString()\<close>, for a valid time: \<open>YYYY-MM-DDTHH:MM:SS.sssZ\<close>.\<close>

definition toISOString :: "int \<Rightarrow> string" where
  "toISOString ms = calendar_date ms @ ''T'' @ clock ms @ ''.'' @ pad 3 (ms mod 1000) @ ''Z''"

text \<open>
  SQLite's \<open>datetime('now')\<close> and \<open>CURRENT_TIMESTAMP\<close> at time \<open>ms\<close>:
  \<open>YYYY-MM-DD HH:MM:SS\<close>, in UTC.
\<close>

definition sqlite_now :: "int \<Rightarrow> string" where
  "sqlite_now ms = calendar_date ms @ '' '' @ clock ms"

text \<open>
  SQLite orders two text values bytewise (the default \<open>BINARY\<close> collation). The
  column \<open>expires_at\<close> holds the ISO text, and both \<open>datetime('now')\<close> and
  \<open>CURRENT_TIMESTAMP\<close> are text, so \<open>expires_at > datetime("now")\<close> and
  \<open>expires_at < CURRENT_TIMESTAMP\<close> are comparisons of text.
\<close>

fun text_less :: "string \<Rightarrow> string \<Rightarrow> bool" where
  "text_less [] [] = False"
| "text_less [] (y # ys) = True"
| "text_less (x # xs) [] = False"
| "text_less (x # xs) (y # ys) =
     (if (of_char x :: nat) < of_char y then True
      else if (of_char y :: nat) < of_char x then False
      else text_less xs ys)"

section \<open>Persistent state (server/lib/database.js)\<close>

text \<open>
  The three tables of \<open>createTables\<close>, each a list of rows in insertion order, and
  the files of the upload directory. \<open>BOOLEAN\<close> columns hold 0 or 1 and are
  \<open>bool\<close> here. \<open>id\<close> is the primary key of each table: an \<open>INSERT\<close> whose id is
  already present fails. The tables declare foreign keys on \<open>device_id\<close>; SQLite
  enforces them only under \<open>PRAGMA foreign_keys = ON\<close>, which the server never
  issues, so no insert or delete is refused on their account. \<open>DEFAULT
  CURRENT_TIMESTAMP\<close> columns are kept as the time of the insert (the database
  keeps them to the second; rows of one second are listed in insertion order here).
\<close>

record device_row =
  d_id :: string
  d_name :: string
  d_ip_address :: "string option"
  d_fingerprint :: "string option"
  d_last_seen :: int
  d_is_trusted :: bool
  d_created_at :: int

record file_row =
  f_id :: string
  f_filename :: string
  f_original_name :: string
  f_size :: nat
  f_mime_type :: string
  f_device_id :: string
  f_encryption_key :: string
  f_upload_time :: int
  f_expires_at :: "int option"
  f_download_count :: nat
  f_is_deleted :: bool

record api_key_row =
  k_id :: string
  k_key_hash :: string
  k_device_id :: string
  k_permissions :: string
  k_created_at :: int
  k_expires_at :: "int option"
  k_is_active :: bool

record server =
  devices :: "device_row list"
  files :: "file_row list"
  api_keys :: "api_key_row list"
  disk :: "string \<rightharpoonup> bytes"

text \<open>
  What the process reads once at start: the upload directory
  (\<open>FILE_STORAGE_PATH || './uploads'\<close>), \<open>MAX_FILE_AGE\<close>, and the identity the
  device manager loaded (\<open>this.deviceId\<close>, \<open>this.deviceName\<close>, \<open>this.publicKey\<close>,
  and the address \<open>getLocalIP()\<close> returns).
\<close>

record config =
  uploadsDir :: string
  MAX_FILE_AGE :: "string option"
  dm_deviceId :: string
  dm_deviceName :: string
  dm_publicKey :: string
  dm_localIP :: string

datatype exn = ENOENT | RangeError | SQLITE_CONSTRAINT | TypeError

type_synonym http_error = "nat \<times> string"

text \<open>
  \<open>path.join(dir, name)\<close> for a directory and a file name without separators, and
  \<open>path.basename(p)\<close> for a path that does not end in a separator.
\<close>

definition path_join :: "string \<Rightarrow> string \<Rightarrow> string" where
  "path_join dir name = dir @ ''/'' @ name"

definition basename :: "string \<Rightarrow> string" where
  "basename p = rev (takeWhile (\<lambda>c. c \<noteq> CHR ''/'') (rev p))"

definition existsSync :: "string \<Rightarrow> server \<Rightarrow> bool" where
  "existsSync p st = (disk st p \<noteq> None)"

definition readFileSync :: "string \<Rightarrow> server \<Rightarrow> exn + bytes" where
  "readFileSync p st = (case disk st p of None \<Rightarrow> Inl ENOENT | Some b \<Rightarrow> Inr b)"

definition writeFileSync :: "string \<Rightarrow> bytes \<Rightarrow> server \<Rightarrow> server" where
  "writeFileSync p b st = st\<lparr>disk := (disk st)(p \<mapsto> b)\<rparr>"

definition unlinkSync :: "string \<Rightarrow> server \<Rightarrow> exn + server" where
  "unlinkSync p st =
     (case disk st p of
        None \<Rightarrow> Inl ENOENT
      | Some b \<Rightarrow> Inr (st\<lparr>disk := (disk st)(p := None)\<rparr>))"

definition insert_device :: "device_row \<Rightarrow> server \<Rightarrow> exn + server" where
  "insert_device row st =
     (if d_id row \<in> set (map d_id (devices st)) then Inl SQLITE_CONSTRAINT
      else Inr (st\<lparr>devices := devices st @ [row]\<rparr>))"

definition insert_file :: "file_row \<Rightarrow> server \<Rightarrow> exn + server" where
  "insert_file row st =
     (if f_id row \<in> set (map f_id (files st)) then Inl SQLITE_CONSTRAINT
      else Inr (st\<lparr>files := files st @ [row]\<rparr>))"

section \<open>Authentication (server/routes/auth.js)\<close>

text \<open>
  What \<open>authenticateRequest\<close> reads of a request: the \<open>X-API-Key\<close> header, a
  string when present, and the \<open>apiKey\<close> parameter of the query string. Express
  parses the query string with \<open>qs\<close>: a parameter is a string, an array when it is
  repeated (\<open>?apiKey=x&apiKey=y\<close>), or an object (\<open>?apiKey[a]=x\<close>).
\<close>

datatype js_value = Str string | Arr "js_value list" | Obj "(string \<times> js_value) list"

record credentials =
  header_x_api_key :: "string option"
  query_apiKey :: "js_value option"

text \<open>
  \<open>req.headers['x-api-key'] || req.query.apiKey\<close>, and the truthiness of the
  result: every array and every object is truthy.
\<close>

definition presented_key :: "credentials \<Rightarrow> js_value option" where
  "presented_key req =
     (if truthy (header_x_api_key req) then map_option Str (header_x_api_key req)
      else query_apiKey req)"

fun value_truthy :: "js_value \<Rightarrow> bool" where
  "value_truthy (Str s) = (s \<noteq> [])"
| "value_truthy (Arr xs) = True"
| "value_truthy (Obj kvs) = True"

text \<open>
  \<open>hashApiKey\<close> on the value the request carries: \<open>hash.update\<close> takes a string
  and throws a \<open>TypeError\<close> on an array or an object.
\<close>

fun hashApiKey_of :: "crypto_lib \<Rightarrow> js_value \<Rightarrow> exn + string" where
  "hashApiKey_of lib (Str s) = Inr (hashApiKey lib s)"
| "hashApiKey_of lib (Arr xs) = Inl TypeError"
| "hashApiKey_of lib (Obj kvs) = Inl TypeError"

record principal =
  p_id :: string
  p_deviceId :: string
  p_permissions :: "string list"

text \<open>
  \<open>keyRecord.expires_at && new Date() > new Date(keyRecord.expires_at)\<close>. The key
  routes bind a \<open>Date\<close> object as the expiry, which the driver stores as its number
  of milliseconds; \<open>0\<close> is falsy.
\<close>

definition key_expired :: "int \<Rightarrow> api_key_row \<Rightarrow> bool" where
  "key_expired now k = (case k_expires_at k of None \<Rightarrow> False | Some e \<Rightarrow> e \<noteq> 0 \<and> now > e)"

text \<open>
  \<open>authenticateRequest\<close>: \<open>Inl\<close> is the answer the middleware sends itself, \<open>Inr\<close>
  is \<open>req.apiKey\<close> at the call of \<open>next()\<close>. A throw inside the \<open>try\<close> ends in
  its \<open>catch\<close>, which answers 500.
\<close>

definition authenticateRequest ::
  "crypto_lib \<Rightarrow> int \<Rightarrow> credentials \<Rightarrow> server \<Rightarrow> http_error + principal" where
  "authenticateRequest lib now req st =
     (case presented_key req of
        None \<Rightarrow> Inl (401, ''API key required'')
      | Some apiKey \<Rightarrow>
          if \<not> value_truthy apiKey then Inl (401, ''API key required'')
          else
            (case hashApiKey_of lib apiKey of
               Inl thrown \<Rightarrow> Inl (500, ''Authentication failed'')
             | Inr keyHash \<Rightarrow>
                 (case find (\<lambda>k. k_key_hash k = keyHash \<and> k_is_active k) (api_keys st) of
                    None \<Rightarrow> Inl (401, ''Invalid API key'')
                  | Some keyRecord \<Rightarrow>
                      if key_expired now keyRecord then Inl (401, ''API key expired'')
                      else Inr \<lparr>p_id = k_id keyRecord, p_deviceId = k_device_id keyRecord,
                                p_permissions = split_comma (k_permissions keyRecord)\<rparr>)))"

definition requirePermission :: "string \<Rightarrow> principal \<Rightarrow> http_error + principal" where
  "requirePermission permission p =
     (if permission \<in> set (p_permissions p) then Inr p
      else Inl (403, ''Permission '' @ [CHR 0x27] @ permission @ [CHR 0x27] @ '' required''))"

text \<open>\<open>DELETE /api-keys/:keyId\<close>: \<open>UPDATE api_keys SET is_active = 0 WHERE id = ?\<close>.\<close>

definition revokeApiKey :: "string \<Rightarrow> server \<Rightarrow> server" where
  "revokeApiKey keyId st =
     st\<lparr>api_keys := map (\<lambda>k. if k_id k = keyId then k\<lparr>k_is_active := False\<rparr> else k) (api_keys st)\<rparr>"

section \<open>Routing (server/index.js and the three routers)\<close>

text \<open>
  A request path is the list of its segments, the pieces between the slashes:
  \<open>/api/files/abc/info\<close> is \<open>[''api'', ''files'', ''abc'', ''info'']\<close>, and a
  trailing slash leaves an empty last segment. A route is a method, a pattern, the
  permission its middleware chain demands (\<open>Some p\<close> when the route is declared
  with \<open>authenticateRequest, requirePermission(p)\<close>, \<open>None\<close> when it is declared
  with neither), and the handler it ends in. Express tries the routes in the order
  of their declaration and runs the first one that matches; a middleware that
  answers (as \<open>authenticateRequest\<close> does on failure) ends the request there.
  The application and its routers run with Express's defaults: literals match
  without regard to the case of ASCII letters, one trailing slash is tolerated, a
  \<open>HEAD\<close> request is served by the \<open>GET\<close> route, and a router's mount path may
  be followed by one more slash. The segments are the text of the URL, with its
  percent-escapes as they were sent.
\<close>

datatype http_method = GET | HEAD | POST | PUT | DELETE

datatype seg = Lit string | Param

datatype endpoint =
    Auth_bootstrap | Auth_validate | Auth_list_keys | Auth_revoke_key | Auth_generate_key
  | Files_list | Files_upload | Files_download | Files_info | Files_delete | Files_cleanup
  | Devices_list | Devices_me | Devices_get | Devices_update | Devices_trust
  | Devices_untrust | Devices_delete | Devices_stats | Devices_register | Devices_discover
  | Health

type_synonym route = "http_method \<times> seg list \<times> string option \<times> endpoint"

definition auth_routes :: "route list" where
  "auth_routes =
     [(POST, [Lit ''bootstrap''], None, Auth_bootstrap),
      (POST, [Lit ''validate''], None, Auth_validate),
      (GET, [Lit ''api-keys''], None, Auth_list_keys),
      (DELETE, [Lit ''api-keys'', Param], None, Auth_revoke_key),
      (POST, [Lit ''api-key''], Some ''write'', Auth_generate_key)]"

definition files_routes :: "route list" where
  "files_routes =
     [(GET, [], None, Files_list),
      (POST, [], None, Files_upload),
      (GET, [Param], None, Files_download),
      (GET, [Param, Lit ''info''], None, Files_info),
      (DELETE, [Param], Some ''write'', Files_delete),
      (POST, [Lit ''cleanup''], Some ''write'', Files_cleanup)]"

definition devices_routes :: "route list" where
  "devices_routes =
     [(GET, [], Some ''read'', Devices_list),
      (GET, [Lit ''me''], Some ''read'', Devices_me),
      (GET, [Param], Some ''read'', Devices_get),
      (PUT, [Param], Some ''write'', Devices_update),
      (POST, [Param, Lit ''trust''], Some ''write'', Devices_trust),
      (POST, [Param, Lit ''untrust''], Some ''write'', Devices_untrust),
      (DELETE, [Param], Some ''write'', Devices_delete),
      (GET, [Param, Lit ''stats''], Some ''read'', Devices_stats),
      (POST, [Lit ''register''], None, Devices_register),
      (GET, [Lit ''discover''], None, Devices_discover)]"

text \<open>\<open>app.use(path, router)\<close>, in the order of \<open>index.js\<close>, and \<open>app.get('/api/health')\<close>.\<close>

definition app_mounts :: "(string list \<times> route list) list" where
  "app_mounts =
     [([''api'', ''auth''], auth_routes),
      ([''api'', ''files''], files_routes),
      ([''api'', ''devices''], devices_routes)]"

definition app_routes :: "route list" where
  "app_routes = [(GET, [Lit ''api'', Lit ''health''], None, Health)]"

definition lower :: "char \<Rightarrow> char" where
  "lower c =
     (if 65 \<le> (of_char c :: nat) \<and> (of_char c :: nat) \<le> 90 then char_of (of_char c + 32 :: nat)
      else c)"

definition same_literal :: "string \<Rightarrow> string \<Rightarrow> bool" where
  "same_literal l s = (map lower s = map lower l)"

fun seg_matches :: "seg \<Rightarrow> string \<Rightarrow> bool" where
  "seg_matches (Lit l) s = same_literal l s"
| "seg_matches Param s = (s \<noteq> [])"

text \<open>A pattern matches the segments, or the segments before one trailing slash.\<close>

definition path_matches :: "seg list \<Rightarrow> string list \<Rightarrow> bool" where
  "path_matches pat path =
     (list_all2 seg_matches pat path \<or>
      (path \<noteq> [] \<and> last path = [] \<and> list_all2 seg_matches pat (butlast path)))"

definition method_matches :: "http_method \<Rightarrow> http_method \<Rightarrow> bool" where
  "method_matches declared m = (declared = m \<or> (m = HEAD \<and> declared = GET))"

text \<open>
  Express decodes the text a parameter matched with \<open>decodeURIComponent\<close>, which
  throws on a \<open>%\<close> that two hexadecimal digits do not follow and on escapes whose
  bytes are not the UTF-8 encoding of a code point. \<open>continuation b\<close> is the ranges
  the bytes after a first byte \<open>b\<close> must lie in; \<open>decodable_from need s\<close> reads \<open>s\<close>
  with the bytes \<open>need\<close> still due.
\<close>

definition continuation :: "nat \<Rightarrow> (nat \<times> nat) list option" where
  "continuation b =
     (if b < 0x80 then Some []
      else if 0xC2 \<le> b \<and> b \<le> 0xDF then Some [(0x80, 0xBF)]
      else if b = 0xE0 then Some [(0xA0, 0xBF), (0x80, 0xBF)]
      else if b = 0xED then Some [(0x80, 0x9F), (0x80, 0xBF)]
      else if 0xE1 \<le> b \<and> b \<le> 0xEF then Some [(0x80, 0xBF), (0x80, 0xBF)]
      else if b = 0xF0 then Some [(0x90, 0xBF), (0x80, 0xBF), (0x80, 0xBF)]
      else if 0xF1 \<le> b \<and> b \<le> 0xF3 then Some [(0x80, 0xBF), (0x80, 0xBF), (0x80, 0xBF)]
      else if b = 0xF4 then Some [(0x80, 0x8F), (0x80, 0xBF), (0x80, 0xBF)]
      else None)"

definition escaped_byte :: "char \<Rightarrow> char \<Rightarrow> nat option" where
  "escaped_byte a b =
     (case (digit_val a, digit_val b) of
        (Some x, Some y) \<Rightarrow> Some (16 * x + y)
      | _ \<Rightarrow> None)"

fun decodable_from :: "(nat \<times> nat) list \<Rightarrow> string \<Rightarrow> bool" where
  "decodable_from need [] = (need = [])"
| "decodable_from need [c] = (need = [] \<and> c \<noteq> CHR ''%'')"
| "decodable_from need [c, a] = (need = [] \<and> c \<noteq> CHR ''%'' \<and> a \<noteq> CHR ''%'')"
| "decodable_from need (c # a # b # rest) =
     (if c = CHR ''%'' then
        (case escaped_byte a b of
           None \<Rightarrow> False
         | Some byte \<Rightarrow>
             (case need of
                [] \<Rightarrow>
                  (case continuation byte of
                     None \<Rightarrow> False
                   | Some need' \<Rightarrow> decodable_from need' rest)
              | (lo, hi) # later \<Rightarrow> lo \<le> byte \<and> byte \<le> hi \<and> decodable_from later rest))
      else need = [] \<and> decodable_from [] (a # b # rest))"

definition decodable :: "string \<Rightarrow> bool" where
  "decodable s = decodable_from [] s"

text \<open>The parameters of a pattern that matched, each decoded (\<open>decode_param\<close>).\<close>

fun params_decodable :: "seg list \<Rightarrow> string list \<Rightarrow> bool" where
  "params_decodable (Param # pat) (s # path) = (decodable s \<and> params_decodable pat path)"
| "params_decodable (Lit l # pat) (s # path) = params_decodable pat path"
| "params_decodable pat path = True"

text \<open>
  What a router does with a request: it runs the first route whose pattern and
  method match, \<open>Routed\<close>; it passes the request on when there is none, \<open>Unrouted\<close>;
  and when a pattern matches, whatever its method, and a parameter does not decode,
  it matches no further route and the request is answered 400, \<open>Undecodable\<close>.
\<close>

datatype routing = Routed route | Undecodable | Unrouted

fun scan_routes :: "http_method \<Rightarrow> string list \<Rightarrow> route list \<Rightarrow> routing" where
  "scan_routes m path [] = Unrouted"
| "scan_routes m path ((m', pat, perm, e) # routes) =
     (if path_matches pat path then
        (if \<not> params_decodable pat path then Undecodable
         else if method_matches m' m then Routed (m', pat, perm, e)
         else scan_routes m path routes)
      else scan_routes m path routes)"

text \<open>
  What a router mounted at \<open>mnt\<close> sees of a path: nothing when the path does not
  start with the mount path, else the segments after it, without the empty segment
  a doubled slash leaves right after the mount path.
\<close>

definition under_mount :: "string list \<Rightarrow> string list \<Rightarrow> string list option" where
  "under_mount mnt path =
     (if length mnt \<le> length path \<and> list_all2 same_literal mnt (take (length mnt) path)
      then (case drop (length mnt) path of
              [] \<Rightarrow> Some []
            | x # xs \<Rightarrow> if x = [] \<and> xs \<noteq> [] then Some xs else Some (x # xs))
      else None)"

text \<open>A router that matches none of its routes passes the request on.\<close>

fun dispatch_mounts ::
  "http_method \<Rightarrow> string list \<Rightarrow> (string list \<times> route list) list \<Rightarrow> routing" where
  "dispatch_mounts m path [] = Unrouted"
| "dispatch_mounts m path ((mnt, routes) # mounts) =
     (case under_mount mnt path of
        None \<Rightarrow> dispatch_mounts m path mounts
      | Some rest \<Rightarrow>
          (case scan_routes m rest routes of
             Routed r \<Rightarrow> Routed r
           | Undecodable \<Rightarrow> Undecodable
           | Unrouted \<Rightarrow> dispatch_mounts m path mounts))"

definition dispatch :: "http_method \<Rightarrow> string list \<Rightarrow> routing" where
  "dispatch m path =
     (case dispatch_mounts m path app_mounts of
        Routed r \<Rightarrow> Routed r
      | Undecodable \<Rightarrow> Undecodable
      | Unrouted \<Rightarrow> scan_routes m path app_routes)"

text \<open>
  The middleware chain a route declares in front of its handler, for a request the
  application-level middleware of \<open>index.js\<close> (helmet, cors, the rate limiter, the
  body parsers) has passed on: \<open>Inl\<close> is the answer sent without the handler being
  run, by a middleware of the route or, 400, by the router; \<open>Inr\<close> is the handler
  the request reaches and the principal attached to it (\<open>req.apiKey\<close>). A request
  none of these routes matches falls through to the static files and the catch-all
  of \<open>index.js\<close>, which run none of the handlers; 404 stands for that.
\<close>

definition gate ::
  "crypto_lib \<Rightarrow> int \<Rightarrow> server \<Rightarrow> http_method \<Rightarrow> string list \<Rightarrow> credentials
     \<Rightarrow> http_error + (endpoint \<times> principal option)" where
  "gate lib now st m path req =
     (case dispatch m path of
        Unrouted \<Rightarrow> Inl (404, ''Not found'')
      | Undecodable \<Rightarrow> Inl (400, ''Failed to decode param'')
      | Routed (m', pat, None, e) \<Rightarrow> Inr (e, None)
      | Routed (m', pat, Some permission, e) \<Rightarrow>
          (case authenticateRequest lib now req st of
             Inl err \<Rightarrow> Inl err
           | Inr p \<Rightarrow>
               (case requirePermission permission p of
                  Inl err \<Rightarrow> Inl err
                | Inr p' \<Rightarrow> Inr (e, Some p'))))"

section \<open>Device manager (server/lib/deviceManager.js)\<close>

definition generateFingerprint :: "crypto_lib \<Rightarrow> string \<Rightarrow> string" where
  "generateFingerprint lib pk = take 16 (sha256_hex lib pk)"

definition update_sighting ::
  "int \<Rightarrow> string \<Rightarrow> string \<Rightarrow> string option \<Rightarrow> string \<Rightarrow> server \<Rightarrow> server" where
  "update_sighting now did name ip fingerprint st =
     st\<lparr>devices :=
          map (\<lambda>d. if d_id d = did
                    then d\<lparr>d_name := name, d_ip_address := ip,
                           d_fingerprint := Some fingerprint, d_last_seen := now\<rparr>
                    else d) (devices st)\<rparr>"

text \<open>\<open>registerDevice\<close>: the node's own record, written at start.\<close>

definition registerDevice :: "crypto_lib \<Rightarrow> config \<Rightarrow> int \<Rightarrow> server \<Rightarrow> exn + server" where
  "registerDevice lib cfg now st =
     (let ip = dm_localIP cfg;
          fingerprint = generateFingerprint lib (dm_publicKey cfg)
      in case find (\<lambda>d. d_id d = dm_deviceId cfg) (devices st) of
           Some existing \<Rightarrow>
             Inr (update_sighting now (dm_deviceId cfg) (dm_deviceName cfg) (Some ip) fingerprint st)
         | None \<Rightarrow>
             insert_device
               \<lparr>d_id = dm_deviceId cfg, d_name = dm_deviceName cfg, d_ip_address = Some ip,
                d_fingerprint = Some fingerprint, d_last_seen = now, d_is_trusted = True,
                d_created_at = now\<rparr> st)"

record device_info =
  di_deviceId :: string
  di_deviceName :: string
  di_ipAddress :: "string option"
  di_publicKey :: string

definition addDiscoveredDevice ::
  "crypto_lib \<Rightarrow> config \<Rightarrow> int \<Rightarrow> device_info \<Rightarrow> server \<Rightarrow> exn + server" where
  "addDiscoveredDevice lib cfg now info st =
     (if di_deviceId info = dm_deviceId cfg then Inr st
      else
        let fingerprint = generateFingerprint lib (di_publicKey info)
        in case find (\<lambda>d. d_id d = di_deviceId info) (devices st) of
             Some existing \<Rightarrow>
               Inr (update_sighting now (di_deviceId info) (di_deviceName info)
                      (di_ipAddress info) fingerprint st)
           | None \<Rightarrow>
               insert_device
                 \<lparr>d_id = di_deviceId info, d_name = di_deviceName info,
                  d_ip_address = di_ipAddress info, d_fingerprint = Some fingerprint,
                  d_last_seen = now, d_is_trusted = False, d_created_at = now\<rparr> st)"

text \<open>
  \<open>POST /api/devices/register\<close>: \<open>uuid\<close> is the value \<open>require('uuid').v4()\<close>
  returns.
\<close>

record register_request =
  rr_deviceName :: "string option"
  rr_publicKey :: "string option"
  rr_ipAddress :: "string option"
  rr_ip :: "string option"

definition register_device_route ::
  "crypto_lib \<Rightarrow> config \<Rightarrow> int \<Rightarrow> string \<Rightarrow> register_request \<Rightarrow> server
     \<Rightarrow> (http_error + string) \<times> server" where
  "register_device_route lib cfg now uuid req st =
     (case (rr_deviceName req, rr_publicKey req) of
        (Some name, Some pk) \<Rightarrow>
          if name = [] \<or> pk = [] then (Inl (400, ''Device name and public key required''), st)
          else
            (case addDiscoveredDevice lib cfg now
                    \<lparr>di_deviceId = uuid, di_deviceName = name,
                     di_ipAddress = js_or (rr_ipAddress req) (rr_ip req),
                     di_publicKey = pk\<rparr> st of
               Inl e \<Rightarrow> (Inl (500, ''Failed to register device''), st)
             | Inr st' \<Rightarrow> (Inr uuid, st'))
      | _ \<Rightarrow> (Inl (400, ''Device name and public key required''), st))"

section \<open>File routes (server/routes/files.js)\<close>

subsection \<open>Upload\<close>

text \<open>
  \<open>upload.single('file')\<close> runs before the handler: it has written the body to
  \<open>uf_path\<close> in the upload directory when the handler starts. \<open>upload_env\<close> holds
  what the handler draws at random: the two \<open>uuidv4()\<close> values, the bytes of the
  file key and the bytes \<open>encryptFile\<close> draws.
\<close>

record uploaded_file =
  uf_path :: string
  uf_originalname :: string
  uf_mimetype :: string
  uf_size :: nat

record upload_request =
  up_file :: "uploaded_file option"
  up_deviceId :: "string option"
  up_deviceName :: "string option"
  up_expiresInMinutes :: "string option"
  up_ip :: "string option"
  up_remoteAddress :: "string option"

record upload_env =
  fresh_fileId :: string
  fresh_deviceId :: string
  key_bytes :: bytes
  iv_bytes :: bytes

record upload_ok =
  ok_fileId :: string
  ok_filename :: string
  ok_size :: nat
  ok_mimeType :: string
  ok_deviceId :: string
  ok_expiresAt :: "int option"
  ok_uploadTime :: int

text \<open>\<open>a || 'literal'\<close>.\<close>

definition or_default :: "string option \<Rightarrow> string \<Rightarrow> string" where
  "or_default a d = (case a of None \<Rightarrow> d | Some s \<Rightarrow> if s = [] then d else s)"

text \<open>The branch \<open>if (!sourceDeviceId) { ... }\<close>: find or create the anonymous device.\<close>

definition anonymous_device ::
  "int \<Rightarrow> upload_env \<Rightarrow> upload_request \<Rightarrow> server \<Rightarrow> (exn \<times> server) + (string \<times> server)" where
  "anonymous_device now env req st =
     (let clientIP = or_default (js_or (up_ip req) (up_remoteAddress req)) ''unknown'';
          anonymousDeviceName =
            or_default (up_deviceName req) (''Anonymous Device ('' @ clientIP @ '')'')
      in case find (\<lambda>d. d_name d = anonymousDeviceName \<and> d_ip_address d = Some clientIP)
                (devices st) of
           Some existingDevice \<Rightarrow> Inr (d_id existingDevice, st)
         | None \<Rightarrow>
             (case insert_device
                     \<lparr>d_id = fresh_deviceId env, d_name = anonymousDeviceName,
                      d_ip_address = Some clientIP, d_fingerprint = None,
                      d_last_seen = now, d_is_trusted = True, d_created_at = now\<rparr> st of
                Inl e \<Rightarrow> Inl (e, st)
              | Inr st' \<Rightarrow> Inr (fresh_deviceId env, st')))"

definition source_device ::
  "int \<Rightarrow> upload_env \<Rightarrow> upload_request \<Rightarrow> server \<Rightarrow> (exn \<times> server) + (string \<times> server)" where
  "source_device now env req st =
     (case up_deviceId req of
        None \<Rightarrow> anonymous_device now env req st
      | Some deviceId \<Rightarrow>
          if deviceId = [] then anonymous_device now env req st else Inr (deviceId, st))"

text \<open>Read the plaintext, encrypt it, write \<open>path.enc\<close>, remove the plaintext.\<close>

definition store_encrypted ::
  "crypto_lib \<Rightarrow> upload_env \<Rightarrow> uploaded_file \<Rightarrow> server \<Rightarrow> (exn \<times> server) + (string \<times> server)" where
  "store_encrypted lib env f st =
     (let encryptionKey = generateKey lib (key_bytes env)
      in case readFileSync (uf_path f) st of
           Inl e \<Rightarrow> Inl (e, st)
         | Inr fileBuffer \<Rightarrow>
             (let encryptedBuffer = encryptFile lib (iv_bytes env) fileBuffer encryptionKey;
                  st1 = writeFileSync (uf_path f @ ''.enc'') encryptedBuffer st
              in (case unlinkSync (uf_path f) st1 of
                    Inl e \<Rightarrow> Inl (e, st1)
                  | Inr st2 \<Rightarrow> Inr (encryptionKey, st2))))"

text \<open>
  \<open>d = new Date(); d.setMinutes(d.getMinutes() + n); d.toISOString()\<close>, and the same
  with seconds: \<open>unit\<close> is the length of the unit in milliseconds, \<open>n\<close> the result
  of \<open>parseInt\<close>. With \<open>NaN\<close>, or out of the range of \<open>Date\<close>, the date is invalid
  and \<open>toISOString\<close> throws. (The setters work in local time; the sum is exact where
  no daylight-saving change lies between the two instants.)
\<close>

definition date_plus :: "int \<Rightarrow> int \<Rightarrow> int option \<Rightarrow> exn + int option" where
  "date_plus now unit n =
     (case n of
        None \<Rightarrow> Inl RangeError
      | Some k \<Rightarrow> if valid_time (now + k * unit) then Inr (Some (now + k * unit))
                  else Inl RangeError)"

definition expiry :: "config \<Rightarrow> int \<Rightarrow> upload_request \<Rightarrow> exn + int option" where
  "expiry cfg now req =
     (case up_expiresInMinutes req of
        Some m \<Rightarrow>
          if m \<noteq> [] then date_plus now 60000 (parseInt m)
          else (case MAX_FILE_AGE cfg of
                  Some a \<Rightarrow> if a \<noteq> [] then date_plus now 1000 (parseInt a) else Inr None
                | None \<Rightarrow> Inr None)
      | None \<Rightarrow>
          (case MAX_FILE_AGE cfg of
             Some a \<Rightarrow> if a \<noteq> [] then date_plus now 1000 (parseInt a) else Inr None
           | None \<Rightarrow> Inr None))"

text \<open>The block \<open>if (deviceName) { ... }\<close> after the insert.\<close>

definition rename_device :: "string option \<Rightarrow> string \<Rightarrow> server \<Rightarrow> server" where
  "rename_device deviceName sourceDeviceId st =
     (case deviceName of
        None \<Rightarrow> st
      | Some name \<Rightarrow>
          if name = [] then st
          else (case find (\<lambda>d. d_id d = sourceDeviceId) (devices st) of
                  None \<Rightarrow> st
                | Some currentDevice \<Rightarrow>
                    if d_name currentDevice \<noteq> name
                    then st\<lparr>devices :=
                            map (\<lambda>d. if d_id d = sourceDeviceId then d\<lparr>d_name := name\<rparr> else d)
                              (devices st)\<rparr>
                    else st))"

definition new_file_row ::
  "int \<Rightarrow> upload_env \<Rightarrow> uploaded_file \<Rightarrow> string \<Rightarrow> string \<Rightarrow> int option \<Rightarrow> file_row" where
  "new_file_row now env f sourceDeviceId encryptionKey expiresAt =
     \<lparr>f_id = fresh_fileId env, f_filename = basename (uf_path f @ ''.enc''),
      f_original_name = uf_originalname f, f_size = uf_size f, f_mime_type = uf_mimetype f,
      f_device_id = sourceDeviceId, f_encryption_key = encryptionKey, f_upload_time = now,
      f_expires_at = expiresAt, f_download_count = 0, f_is_deleted = False\<rparr>"

text \<open>The \<open>try\<close> block: \<open>Inl\<close> is a throw, with the state at that moment.\<close>

definition upload_try ::
  "crypto_lib \<Rightarrow> config \<Rightarrow> int \<Rightarrow> upload_env \<Rightarrow> upload_request \<Rightarrow> uploaded_file \<Rightarrow> server
     \<Rightarrow> (exn \<times> server) + (upload_ok \<times> server)" where
  "upload_try lib cfg now env req f st =
     (case source_device now env req st of
        Inl x \<Rightarrow> Inl x
      | Inr (sourceDeviceId, st1) \<Rightarrow>
     (case store_encrypted lib env f st1 of
        Inl x \<Rightarrow> Inl x
      | Inr (encryptionKey, st2) \<Rightarrow>
     (case expiry cfg now req of
        Inl e \<Rightarrow> Inl (e, st2)
      | Inr expiresAt \<Rightarrow>
     (case insert_file (new_file_row now env f sourceDeviceId encryptionKey expiresAt) st2 of
        Inl e \<Rightarrow> Inl (e, st2)
      | Inr st3 \<Rightarrow>
          Inr (\<lparr>ok_fileId = fresh_fileId env, ok_filename = uf_originalname f,
                ok_size = uf_size f, ok_mimeType = uf_mimetype f,
                ok_deviceId = sourceDeviceId, ok_expiresAt = expiresAt,
                ok_uploadTime = now\<rparr>,
               rename_device (up_deviceName req) sourceDeviceId st3)))))"

text \<open>
  The \<open>catch\<close> block: the two \<open>unlinkSync\<close> calls share one inner \<open>try\<close>, so a
  throw of the first skips the second.
\<close>

definition upload_catch :: "uploaded_file \<Rightarrow> server \<Rightarrow> server" where
  "upload_catch f st =
     (if uf_path f = [] then st
      else (case unlinkSync (uf_path f) st of
              Inl e \<Rightarrow> st
            | Inr st1 \<Rightarrow>
                (case unlinkSync (uf_path f @ ''.enc'') st1 of
                   Inl e \<Rightarrow> st1
                 | Inr st2 \<Rightarrow> st2)))"

definition upload ::
  "crypto_lib \<Rightarrow> config \<Rightarrow> int \<Rightarrow> upload_env \<Rightarrow> upload_request \<Rightarrow> server
     \<Rightarrow> (http_error + upload_ok) \<times> server" where
  "upload lib cfg now env req st =
     (case up_file req of
        None \<Rightarrow> (Inl (400, ''No file uploaded''), st)
      | Some f \<Rightarrow>
          (case upload_try lib cfg now env req f st of
             Inr (ok, st') \<Rightarrow> (Inr ok, st')
           | Inl (e, st') \<Rightarrow> (Inl (500, ''File upload failed''), upload_catch f st')))"

subsection \<open>List, info, download\<close>

record file_info =
  fi_id :: string
  fi_filename :: string
  fi_size :: nat
  fi_mimeType :: string
  fi_deviceId :: string
  fi_deviceName :: "string option"
  fi_deviceIp :: "string option"
  fi_uploadTime :: int
  fi_expiresAt :: "int option"
  fi_downloadCount :: nat

text \<open>The selected columns, with those of \<open>LEFT JOIN devices d ON f.device_id = d.id\<close>.\<close>

definition joined :: "server \<Rightarrow> file_row \<Rightarrow> file_info" where
  "joined st f =
     (let d = find (\<lambda>d. d_id d = f_device_id f) (devices st)
      in \<lparr>fi_id = f_id f, fi_filename = f_original_name f, fi_size = f_size f,
          fi_mimeType = f_mime_type f, fi_deviceId = f_device_id f,
          fi_deviceName = map_option d_name d,
          fi_deviceIp = (case d of None \<Rightarrow> None | Some r \<Rightarrow> d_ip_address r),
          fi_uploadTime = f_upload_time f, fi_expiresAt = f_expires_at f,
          fi_downloadCount = f_download_count f\<rparr>)"

text \<open>\<open>f.expires_at IS NULL OR f.expires_at > datetime("now")\<close>.\<close>

definition sql_not_expired :: "int \<Rightarrow> file_row \<Rightarrow> bool" where
  "sql_not_expired now f =
     (case f_expires_at f of
        None \<Rightarrow> True
      | Some e \<Rightarrow> text_less (sqlite_now now) (toISOString e))"

text \<open>\<open>expires_at IS NOT NULL AND expires_at < CURRENT_TIMESTAMP\<close>.\<close>

definition sql_expired :: "int \<Rightarrow> file_row \<Rightarrow> bool" where
  "sql_expired now f =
     (case f_expires_at f of
        None \<Rightarrow> False
      | Some e \<Rightarrow> text_less (toISOString e) (sqlite_now now))"

text \<open>\<open>file.expires_at && new Date() > new Date(file.expires_at)\<close>.\<close>

definition js_expired :: "int \<Rightarrow> file_row \<Rightarrow> bool" where
  "js_expired now f = (case f_expires_at f of None \<Rightarrow> False | Some e \<Rightarrow> now > e)"

text \<open>\<open>if (deviceId) query += ' AND f.device_id = ?'\<close>.\<close>

definition device_filter :: "string option \<Rightarrow> file_row \<Rightarrow> bool" where
  "device_filter q f = (case q of None \<Rightarrow> True | Some d \<Rightarrow> d = [] \<or> f_device_id f = d)"

text \<open>
  \<open>LIMIT l OFFSET o\<close>: a negative limit is no limit, a negative offset is none.
  \<open>lim\<close> and \<open>off\<close> are the integers \<open>parseInt(limit)\<close> and \<open>parseInt(offset)\<close>
  give (50 and 0 when the query has none).
\<close>

definition sql_limit :: "int \<Rightarrow> int \<Rightarrow> 'a list \<Rightarrow> 'a list" where
  "sql_limit lim off rows =
     (let rest = drop (nat off) rows in if lim < 0 then rest else take (nat lim) rest)"

definition list_files :: "int \<Rightarrow> string option \<Rightarrow> int \<Rightarrow> int \<Rightarrow> server \<Rightarrow> file_info list" where
  "list_files now q lim off st =
     map (joined st)
       (sql_limit lim off
          (sort_key (\<lambda>f. - f_upload_time f)
             (filter (\<lambda>f. \<not> f_is_deleted f \<and> device_filter q f \<and> sql_not_expired now f)
                (files st))))"

text \<open>\<open>SELECT ... FROM files f ... WHERE f.id = ? AND f.is_deleted = 0\<close>.\<close>

definition live_file :: "string \<Rightarrow> server \<Rightarrow> file_row option" where
  "live_file fileId st = find (\<lambda>f. f_id f = fileId \<and> \<not> f_is_deleted f) (files st)"

definition file_info :: "int \<Rightarrow> string \<Rightarrow> server \<Rightarrow> http_error + file_info" where
  "file_info now fileId st =
     (case live_file fileId st of
        None \<Rightarrow> Inl (404, ''File not found'')
      | Some file \<Rightarrow>
          if js_expired now file then Inl (410, ''File expired'')
          else Inr (joined st file))"

definition count_download :: "string \<Rightarrow> server \<Rightarrow> server" where
  "count_download fileId st =
     st\<lparr>files :=
          map (\<lambda>f. if f_id f = fileId then f\<lparr>f_download_count := f_download_count f + 1\<rparr> else f)
            (files st)\<rparr>"

definition download ::
  "crypto_lib \<Rightarrow> config \<Rightarrow> int \<Rightarrow> string \<Rightarrow> server \<Rightarrow> (http_error + bytes) \<times> server" where
  "download lib cfg now fileId st =
     (case live_file fileId st of
        None \<Rightarrow> (Inl (404, ''File not found''), st)
      | Some file \<Rightarrow>
          if js_expired now file then (Inl (410, ''File expired''), st)
          else if \<not> existsSync (path_join (uploadsDir cfg) (f_filename file)) st
          then (Inl (404, ''File not found on disk''), st)
          else
            (case readFileSync (path_join (uploadsDir cfg) (f_filename file)) st of
               Inl e \<Rightarrow> (Inl (500, ''File decryption failed''), st)
             | Inr encryptedBuffer \<Rightarrow>
                 (case decryptFile lib encryptedBuffer (f_encryption_key file) of
                    Inl e \<Rightarrow> (Inl (500, ''File decryption failed''), st)
                  | Inr decryptedBuffer \<Rightarrow> (Inr decryptedBuffer, count_download fileId st))))"

subsection \<open>Delete and cleanup\<close>

definition mark_deleted :: "string \<Rightarrow> server \<Rightarrow> server" where
  "mark_deleted fileId st =
     st\<lparr>files := map (\<lambda>f. if f_id f = fileId then f\<lparr>f_is_deleted := True\<rparr> else f) (files st)\<rparr>"

text \<open>\<open>if (fs.existsSync(filePath)) fs.unlinkSync(filePath)\<close>, inside its \<open>try\<close>.\<close>

definition remove_blob :: "config \<Rightarrow> file_row \<Rightarrow> server \<Rightarrow> server" where
  "remove_blob cfg file st =
     (if existsSync (path_join (uploadsDir cfg) (f_filename file)) st
      then (case unlinkSync (path_join (uploadsDir cfg) (f_filename file)) st of
              Inl e \<Rightarrow> st
            | Inr st' \<Rightarrow> st')
      else st)"

text \<open>The handler of \<open>DELETE /:fileId\<close>, behind its middleware.\<close>

definition delete_file :: "config \<Rightarrow> string \<Rightarrow> server \<Rightarrow> (http_error + unit) \<times> server" where
  "delete_file cfg fileId st =
     (case live_file fileId st of
        None \<Rightarrow> (Inl (404, ''File not found''), st)
      | Some file \<Rightarrow> (Inr (), remove_blob cfg file (mark_deleted fileId st)))"

text \<open>The handler of \<open>POST /cleanup\<close>, behind its middleware: the state after the loop.\<close>

definition cleanup :: "config \<Rightarrow> int \<Rightarrow> server \<Rightarrow> server" where
  "cleanup cfg now st =
     fold (\<lambda>file s. remove_blob cfg file (mark_deleted (f_id file) s))
       (filter (\<lambda>f. sql_expired now f \<and> \<not> f_is_deleted f) (files st)) st"

subsection \<open>The file operations as one step function\<close>

text \<open>
  One request to the file router, and the state it leaves. Delete and cleanup sit
  behind \<open>authenticateRequest, requirePermission('write')\<close>; a request the
  middleware rejects leaves the state as it was.
\<close>

datatype file_request =
    List_files "string option" int int
  | Upload upload_env upload_request
  | Download string
  | Info string
  | Delete_file credentials string
  | Cleanup credentials

definition write_allowed :: "crypto_lib \<Rightarrow> int \<Rightarrow> credentials \<Rightarrow> server \<Rightarrow> bool" where
  "write_allowed lib now req st =
     (case authenticateRequest lib now req st of
        Inl e \<Rightarrow> False
      | Inr p \<Rightarrow> (case requirePermission ''write'' p of Inl e \<Rightarrow> False | Inr p' \<Rightarrow> True))"

fun step :: "crypto_lib \<Rightarrow> config \<Rightarrow> int \<Rightarrow> file_request \<Rightarrow> server \<Rightarrow> server" where
  "step lib cfg now (List_files q lim off) st = st"
| "step lib cfg now (Upload env req) st = snd (upload lib cfg now env req st)"
| "step lib cfg now (Download fileId) st = snd (download lib cfg now fileId st)"
| "step lib cfg now (Info fileId) st = st"
| "step lib cfg now (Delete_file req fileId) st =
     (if write_allowed lib now req st then snd (delete_file cfg fileId st) else st)"
| "step lib cfg now (Cleanup req) st =
     (if write_allowed lib now req st then cleanup cfg now st else st)"

text \<open>A sequence of requests, each at its own time.\<close>

fun run :: "crypto_lib \<Rightarrow> config \<Rightarrow> (int \<times> file_request) list \<Rightarrow> server \<Rightarrow> server" where
  "run lib cfg [] st = st"
| "run lib cfg ((now, r) # rs) st = run lib cfg rs (step lib cfg now r st)"

section \<open>The access policy the routes are checked against\<close>

text \<open>
  The handlers behind a key: key generation, every device route that reads, renames,
  trusts, untrusts or deletes, file deletion and cleanup. The handlers open to
  anyone: the four public file routes, the bootstrap of the first key, key
  validation, device registration and the health check.
\<close>

definition gated_endpoints :: "endpoint list" where
  "gated_endpoints =
     [Auth_generate_key, Devices_list, Devices_me, Devices_get, Devices_update, Devices_trust,
      Devices_untrust, Devices_delete, Devices_stats, Files_delete, Files_cleanup]"

definition public_endpoints :: "endpoint list" where
  "public_endpoints =
     [Files_list, Files_upload, Files_download, Files_info,
      Auth_bootstrap, Auth_validate, Devices_register, Health]"

section \<open>Sample inputs\<close>

text \<open>Concrete values at which the theorems below are instantiated.\<close>

definition sample_cfg :: config where
  "sample_cfg =
     \<lparr>uploadsDir = ''uploads'', MAX_FILE_AGE = None, dm_deviceId = ''self'',
      dm_deviceName = ''node'', dm_publicKey = ''pk'', dm_localIP = ''10.0.0.1''\<rparr>"

definition sample_key :: api_key_row where
  "sample_key =
     \<lparr>k_id = ''k1'', k_key_hash = ''terces'', k_device_id = ''self'',
      k_permissions = ''read,write'', k_created_at = 0, k_expires_at = None,
      k_is_active = True\<rparr>"

definition sample_server :: server where
  "sample_server =
     \<lparr>devices = [], files = [], api_keys = [sample_key],
      disk = [''uploads/u1.txt'' \<mapsto> [104, 105]]\<rparr>"

definition no_key :: credentials where
  "no_key = \<lparr>header_x_api_key = None, query_apiKey = None\<rparr>"

definition sample_env :: upload_env where
  "sample_env =
     \<lparr>fresh_fileId = ''f1'', fresh_deviceId = ''d1'', key_bytes = [1, 2, 3],
      iv_bytes = replicate 16 7\<rparr>"

definition sample_file :: uploaded_file where
  "sample_file =
     \<lparr>uf_path = ''uploads/u1.txt'', uf_originalname = ''a.txt'',
      uf_mimetype = ''text/plain'', uf_size = 2\<rparr>"

definition sample_upload :: upload_request where
  "sample_upload =
     \<lparr>up_file = Some sample_file, up_deviceId = None, up_deviceName = None,
      up_expiresInMinutes = None, up_ip = Some ''10.0.0.9'', up_remoteAddress = None\<rparr>"

definition sample_registration :: register_request where
  "sample_registration =
     \<lparr>rr_deviceName = Some ''phone'', rr_publicKey = Some ''pk2'', rr_ipAddress = None,
      rr_ip = Some ''10.0.0.7''\<rparr>"

definition sample_info :: device_info where
  "sample_info =
     \<lparr>di_deviceId = ''d9'', di_deviceName = ''tablet'', di_ipAddress = Some ''10.0.0.8'',
      di_publicKey = ''pk3''\<rparr>"

section \<open>The accessibility predicate of the specification\<close>

text \<open>
  Written from the words of the specification, not from the code: a file record is
  accessible iff it is not deleted and its expiry is null or later than now.
\<close>

definition spec_accessible :: "int \<Rightarrow> file_row \<Rightarrow> bool" where
  "spec_accessible now f =
     (\<not> f_is_deleted f \<and> (case f_expires_at f of None \<Rightarrow> True | Some e \<Rightarrow> now < e))"

text \<open>
  A file row as the upload handler leaves it for a two-byte file uploaded at time
  1000 with \<open>expiresInMinutes = 0\<close>, a state holding that row and its ciphertext, and
  the upload request that produces them.
\<close>

definition sample_row :: file_row where
  "sample_row =
     \<lparr>f_id = ''f1'', f_filename = ''u1.txt.enc'', f_original_name = ''a.txt'', f_size = 2,
      f_mime_type = ''text/plain'', f_device_id = ''d1'',
      f_encryption_key = generateKey sample_lib [1, 2, 3], f_upload_time = 1000,
      f_expires_at = Some 1000, f_download_count = 0, f_is_deleted = False\<rparr>"

definition sample_stored :: server where
  "sample_stored =
     \<lparr>devices = [], files = [sample_row], api_keys = [sample_key],
      disk = [''uploads/u1.txt.enc'' \<mapsto>
               encryptFile sample_lib (replicate 16 7) [104, 105]
                 (generateKey sample_lib [1, 2, 3])]\<rparr>"

definition sample_expiring :: upload_request where
  "sample_expiring = sample_upload\<lparr>up_deviceId := Some ''d1'', up_expiresInMinutes := Some ''0''\<rparr>"

section \<open>What a request may do to a file row\<close>

text \<open>
  \<open>allowed_change r r'\<close>: the row is as it was, or its download count is one
  higher, or its deletion flag has been set. \<open>evolves xs ys\<close>: the table \<open>ys\<close>
  holds the rows of \<open>xs\<close> in place, each changed only so, and at most one more row
  after them, under a new id.
\<close>

definition allowed_change :: "file_row \<Rightarrow> file_row \<Rightarrow> bool" where
  "allowed_change r r' =
     (r' = r \<or> r' = r\<lparr>f_download_count := f_download_count r + 1\<rparr> \<or>
      r' = r\<lparr>f_is_deleted := True\<rparr>)"

definition evolves :: "file_row list \<Rightarrow> file_row list \<Rightarrow> bool" where
  "evolves xs ys =
     (\<exists>g extra. ys = map g xs @ extra \<and> (\<forall>r. allowed_change r (g r)) \<and>
        (extra = [] \<or> (\<exists>row. extra = [row] \<and> f_id row \<notin> set (map f_id xs))))"

definition sample_credentials :: credentials where
  "sample_credentials = \<lparr>header_x_api_key = Some ''secret'', query_apiKey = None\<rparr>"

definition repeated_key :: credentials where
  "repeated_key =
     \<lparr>header_x_api_key = None, query_apiKey = Some (Arr [Str ''secret'', Str ''secret''])\<rparr>"

definition sample_requests :: "(int \<times> file_request) list" where
  "sample_requests =
     [(2000, Download ''f1''), (3000, Upload sample_env sample_upload),
      (4000, Cleanup sample_credentials), (5000, Delete_file sample_credentials ''f1''),
      (5500, Info ''f1''), (5600, List_files None 50 0)]"

section \<open>Properties of the encryption service\<close>

lemma encryptFile_parts:
  assumes "length iv = 16"
    and "gcm_seal lib (from_base64 lib K) P = (ct, tag)"
    and "length tag = 16"
  shows "take ivLength (encryptFile lib iv P K) = iv"
    and "take tagLength (drop ivLength (encryptFile lib iv P K)) = tag"
    and "drop (ivLength + tagLength) (encryptFile lib iv P K) = ct"
  using assms
  by (simp_all add: encryptFile_def createCipher_def ivLength_def tagLength_def)

text \<open>
  C2 (round trip). For every plaintext \<open>P\<close>, every key \<open>K\<close> (in particular one made
  by \<open>generateKey\<close>) and every sixteen-byte nonce drawn by \<open>encryptFile\<close>: if the
  library's cipher returns a sixteen-byte tag and its decipher accepts what its cipher
  produced under the same password, then \<open>decryptFile\<close> on the blob of \<open>encryptFile\<close>
  returns exactly \<open>P\<close>.
\<close>

theorem decryptFile_encryptFile:
  assumes "length iv = 16"
    and "gcm_seal lib (from_base64 lib K) P = (ct, tag)"
    and "length tag = 16"
    and "gcm_open lib (from_base64 lib K) tag ct = Some P"
  shows "decryptFile lib (encryptFile lib iv P K) K = Inr P"
proof -
  have "decryptFile lib (encryptFile lib iv P K) K =
          (case createDecipher lib (from_base64 lib K) iv tag ct of
             None \<Rightarrow> Inl Decryption_failed | Some d \<Rightarrow> Inr d)"
    unfolding decryptFile_def Let_def
    by (simp only: encryptFile_parts [OF assms(1-3)])
  then show ?thesis
    by (simp add: createDecipher_def assms(4))
qed

theorem decryptFile_encryptFile_witness:
  "decryptFile sample_lib
     (encryptFile sample_lib (replicate 16 7) [104, 105]
        (generateKey sample_lib [1, 2, 3]))
     (generateKey sample_lib [1, 2, 3]) = Inr [104, 105]"
  using decryptFile_encryptFile
    [of "replicate 16 7" sample_lib "generateKey sample_lib [1, 2, 3]" "[104, 105]"
      "fst (gcm_seal sample_lib
              (from_base64 sample_lib (generateKey sample_lib [1, 2, 3])) [104, 105])"
      "snd (gcm_seal sample_lib
              (from_base64 sample_lib (generateKey sample_lib [1, 2, 3])) [104, 105])"]
  by (simp add: sample_lib_def sample_tag_def sample_pad_def generateKey_def)

lemma xor_pow_neq: "(x::8 word) XOR 2 ^ k \<noteq> x" if "k < 8"
proof
  assume e: "x XOR 2 ^ k = x"
  have "bit (x XOR 2 ^ k) k = bit x k" by (simp only: e)
  with that show False by (simp add: bit_xor_iff bit_exp_iff)
qed

lemma tamper_bit_neq: "n div 8 < length buf \<Longrightarrow> tamper_bit n buf \<noteq> buf"
proof
  assume a: "n div 8 < length buf" and e: "tamper_bit n buf = buf"
  from e have "tamper_bit n buf ! (n div 8) = buf ! (n div 8)" by simp
  with a show False by (simp add: tamper_bit_def xor_pow_neq)
qed

lemma tamper_bit_drop: "n div 8 < k \<Longrightarrow> drop k (tamper_bit n buf) = drop k buf"
  by (simp add: tamper_bit_def)

lemma tamper_bit_take_drop:
  "n div 8 < k \<Longrightarrow> take j (drop k (tamper_bit n buf)) = take j (drop k buf)"
  by (simp add: tamper_bit_def)

lemma length_encryptFile: "length iv \<le> length (encryptFile lib iv P K)"
  by (simp add: encryptFile_def Let_def split: prod.splits)

text \<open>
  C3 (tamper detection), as the code behaves: flipping any one of the 128 bits of the
  leading sixteen-byte segment of a blob made by \<open>encryptFile\<close> changes the blob,
  and \<open>decryptFile\<close> returns on the changed blob exactly what it returns on the
  original one. The segment is sliced off and handed to \<open>createDecipher\<close> as its
  options argument; neither the key, the nonce nor the tag check depends on it.
\<close>

theorem decryptFile_ignores_iv_segment:
  assumes "length iv = 16" and "n < 128"
  shows "tamper_bit n (encryptFile lib iv P K) \<noteq> encryptFile lib iv P K \<and>
         decryptFile lib (tamper_bit n (encryptFile lib iv P K)) K =
         decryptFile lib (encryptFile lib iv P K) K"
proof -
  from assms(2) have d: "n div 8 < ivLength" by (simp add: ivLength_def)
  then have d': "n div 8 < ivLength + tagLength" by simp
  from assms have "n div 8 < length iv" by simp
  with length_encryptFile [of iv lib P K]
  have "n div 8 < length (encryptFile lib iv P K)" by simp
  then have "tamper_bit n (encryptFile lib iv P K) \<noteq> encryptFile lib iv P K"
    by (rule tamper_bit_neq)
  moreover have "decryptFile lib (tamper_bit n (encryptFile lib iv P K)) K =
         decryptFile lib (encryptFile lib iv P K) K"
    unfolding decryptFile_def Let_def createDecipher_def
    by (simp only: tamper_bit_drop [OF d'] tamper_bit_take_drop [OF d])
  ultimately show ?thesis by simp
qed

theorem decryptFile_ignores_iv_segment_witness:
  "tamper_bit 0 (encryptFile sample_lib (replicate 16 7) [104, 105] ''k'') \<noteq>
     encryptFile sample_lib (replicate 16 7) [104, 105] ''k'' \<and>
   decryptFile sample_lib
     (tamper_bit 0 (encryptFile sample_lib (replicate 16 7) [104, 105] ''k'')) ''k'' =
   Inr [104, 105]"
proof -
  have r: "decryptFile sample_lib
             (encryptFile sample_lib (replicate 16 7) [104, 105] ''k'') ''k'' = Inr [104, 105]"
    by (simp add: decryptFile_def encryptFile_def createCipher_def createDecipher_def
        ivLength_def tagLength_def sample_lib_def sample_tag_def sample_pad_def)
  show ?thesis
    using decryptFile_ignores_iv_segment [of "replicate 16 7" 0 sample_lib "[104, 105]" "''k''"]
    by (simp add: r)
qed

section \<open>Properties of authentication and routing\<close>

lemma find_SomeD: "find P xs = Some x \<Longrightarrow> x \<in> set xs \<and> P x"
  by (induction xs) (auto split: if_splits)

lemma hashApiKey_of_Inr: "hashApiKey_of lib v = Inr h \<Longrightarrow> \<exists>s. v = Str s \<and> h = hashApiKey lib s"
  by (cases v) simp_all

lemma hashApiKey_of_not_string: "\<forall>s. v \<noteq> Str s \<Longrightarrow> hashApiKey_of lib v = Inl TypeError"
  by (cases v) simp_all

lemma value_truthy_not_string: "\<forall>s. v \<noteq> Str s \<Longrightarrow> value_truthy v"
  by (cases v) simp_all

lemma authenticateRequest_Inr:
  assumes "authenticateRequest lib now req st = Inr p"
  obtains apiKey row where "presented_key req = Some (Str apiKey)"
    and "apiKey \<noteq> []"
    and "find (\<lambda>k. k_key_hash k = hashApiKey lib apiKey \<and> k_is_active k) (api_keys st) = Some row"
    and "\<not> key_expired now row"
    and "p = \<lparr>p_id = k_id row, p_deviceId = k_device_id row,
                p_permissions = split_comma (k_permissions row)\<rparr>"
proof -
  from assms obtain v where v: "presented_key req = Some v" "value_truthy v"
    by (auto simp: authenticateRequest_def split: option.splits if_splits)
  with assms obtain h where h: "hashApiKey_of lib v = Inr h"
    by (auto simp: authenticateRequest_def split: sum.splits)
  then obtain s where s: "v = Str s" "h = hashApiKey lib s"
    using hashApiKey_of_Inr by blast
  with v have ne: "s \<noteq> []" by simp
  from assms v h s obtain row where
    "find (\<lambda>k. k_key_hash k = hashApiKey lib s \<and> k_is_active k) (api_keys st) = Some row"
    "\<not> key_expired now row"
    "p = \<lparr>p_id = k_id row, p_deviceId = k_device_id row,
                p_permissions = split_comma (k_permissions row)\<rparr>"
    by (auto simp: authenticateRequest_def split: option.splits if_splits)
  with v s ne that show ?thesis by blast
qed

lemma authenticateRequest_Inl:
  "authenticateRequest lib now req st = Inl err \<Longrightarrow> fst err = 401 \<or> fst err = 500"
  by (auto simp: authenticateRequest_def split: option.splits if_splits sum.splits)

lemma authenticateRequest_not_string:
  assumes "presented_key req = Some v" and "\<forall>s. v \<noteq> Str s"
  shows "authenticateRequest lib now req st = Inl (500, ''Authentication failed'')"
  using assms value_truthy_not_string [OF assms(2)] hashApiKey_of_not_string [OF assms(2), of lib]
  by (simp add: authenticateRequest_def)

lemma authenticateRequest_by_key:
  "presented_key req = presented_key req'
   \<Longrightarrow> authenticateRequest lib now req st = authenticateRequest lib now req' st"
  by (simp add: authenticateRequest_def)

lemma gate_by_key:
  "presented_key req = presented_key req'
   \<Longrightarrow> gate lib now st m path req = gate lib now st m path req'"
  using authenticateRequest_by_key [of req req' lib now st]
  by (simp add: gate_def split: routing.splits option.splits prod.splits)

lemma scan_routes_Routed: "scan_routes m path routes = Routed r \<Longrightarrow> r \<in> set routes"
proof (induction routes)
  case Nil
  then show ?case by simp
next
  case (Cons a routes)
  obtain m' pat perm e where a: "a = (m', pat, perm, e)" by (cases a)
  show ?case
  proof (cases "scan_routes m path routes = Routed r")
    case True
    from Cons.IH [OF this] show ?thesis by simp
  next
    case False
    with Cons.prems a have "r = a" by (auto split: if_splits)
    then show ?thesis by simp
  qed
qed

lemma dispatch_mounts_Routed:
  "dispatch_mounts m path mounts = Routed r
   \<Longrightarrow> \<exists>mnt routes. (mnt, routes) \<in> set mounts \<and> r \<in> set routes"
proof (induction mounts)
  case Nil
  then show ?case by simp
next
  case (Cons a mounts)
  obtain mnt routes where a: "a = (mnt, routes)" by (cases a)
  show ?case
  proof (cases "\<exists>rest. under_mount mnt path = Some rest \<and> scan_routes m rest routes = Routed r")
    case True
    then have "r \<in> set routes" using scan_routes_Routed by blast
    with a show ?thesis by auto
  next
    case False
    with Cons.prems a have "dispatch_mounts m path mounts = Routed r"
      by (auto split: option.splits routing.splits)
    from Cons.IH [OF this] show ?thesis by auto
  qed
qed

lemma dispatch_route:
  assumes "dispatch m path = Routed r"
  shows "r \<in> set auth_routes \<union> set files_routes \<union> set devices_routes \<union> set app_routes"
proof (cases "dispatch_mounts m path app_mounts = Routed r")
  case True
  from dispatch_mounts_Routed [OF this] show ?thesis
    by (auto simp: app_mounts_def)
next
  case False
  with assms have "scan_routes m path app_routes = Routed r"
    by (auto simp: dispatch_def split: routing.splits)
  from scan_routes_Routed [OF this] show ?thesis by simp
qed

lemma dispatch_guard:
  assumes "dispatch m path = Routed (m', pat, perm, e)"
  shows "(e \<in> set gated_endpoints \<longrightarrow> perm \<noteq> None) \<and>
         (e \<in> set public_endpoints \<longrightarrow> perm = None)"
  using dispatch_route [OF assms]
  unfolding auth_routes_def files_routes_def devices_routes_def app_routes_def
    gated_endpoints_def public_endpoints_def
  by auto

lemma undecodable_parameter_answer:
  "dispatch m path = Undecodable
   \<Longrightarrow> gate lib now st m path req = Inl (400, ''Failed to decode param'')"
  by (simp add: gate_def)

lemma handler_reached_is_routed:
  "gate lib now st m path req = Inr (e, pr) \<Longrightarrow> \<exists>m' pat perm. dispatch m path = Routed (m', pat, perm, e)"
  by (auto simp: gate_def split: routing.splits option.splits sum.splits prod.splits)

text \<open>
  C1, as the routes are declared. A request routed to key generation, to a device
  route that lists, reads, renames, trusts, untrusts or deletes, to file deletion or
  to cleanup (whatever the case of its path, with or without a trailing slash) is
  answered by the middleware, with 401, 403 or 500, and its handler is not run,
  unless it presents (in the header or the query string) a non-empty string key
  whose hash is that of an active, unexpired row holding the permission the route
  demands; only then does it reach the handler, as that row's principal. The answer
  is 500 when the key presented is not a string (a repeated or bracketed \<open>apiKey\<close>
  parameter). A request routed to file list, upload, download or info, to the
  bootstrap of the first key, to key validation, to device registration or to the
  health check reaches its handler whatever key it carries. (Listing and revoking
  keys are in neither set. A request with a parameter that does not decode is
  routed to no handler: the router answers 400.)
\<close>

theorem gated_endpoints_require_key:
  assumes "dispatch m path = Routed (m', pat, perm, e)"
  shows "(e \<in> set gated_endpoints \<longrightarrow>
           (\<exists>permission. perm = Some permission \<and>
             ((\<exists>err. gate lib now st m path req = Inl err \<and>
                 (fst err = 401 \<or> fst err = 403 \<or> fst err = 500)) \<or>
              (\<exists>k row p. gate lib now st m path req = Inr (e, Some p) \<and>
                 presented_key req = Some (Str k) \<and> k \<noteq> [] \<and>
                 row \<in> set (api_keys st) \<and> k_key_hash row = hashApiKey lib k \<and>
                 k_is_active row \<and> \<not> key_expired now row \<and>
                 permission \<in> set (split_comma (k_permissions row)) \<and>
                 p_id p = k_id row \<and> p_deviceId p = k_device_id row)) \<and>
             (\<forall>v. presented_key req = Some v \<and> (\<forall>s. v \<noteq> Str s) \<longrightarrow>
                gate lib now st m path req = Inl (500, ''Authentication failed'')))) \<and>
         (e \<in> set public_endpoints \<longrightarrow> gate lib now st m path req = Inr (e, None))"
proof (intro conjI impI)
  assume g: "e \<in> set gated_endpoints"
  with dispatch_guard [OF assms] obtain permission where perm: "perm = Some permission" by auto
  have main: "(\<exists>err. gate lib now st m path req = Inl err \<and>
                 (fst err = 401 \<or> fst err = 403 \<or> fst err = 500)) \<or>
              (\<exists>k row p. gate lib now st m path req = Inr (e, Some p) \<and>
                 presented_key req = Some (Str k) \<and> k \<noteq> [] \<and>
                 row \<in> set (api_keys st) \<and> k_key_hash row = hashApiKey lib k \<and>
                 k_is_active row \<and> \<not> key_expired now row \<and>
                 permission \<in> set (split_comma (k_permissions row)) \<and>
                 p_id p = k_id row \<and> p_deviceId p = k_device_id row)"
  proof (cases "authenticateRequest lib now req st")
    case (Inl err)
    then have "gate lib now st m path req = Inl err"
      using assms perm by (simp add: gate_def)
    moreover from Inl have "fst err = 401 \<or> fst err = 500"
      by (rule authenticateRequest_Inl)
    ultimately show ?thesis by blast
  next
    case (Inr p)
    then obtain apiKey row where
      key: "presented_key req = Some (Str apiKey)" "apiKey \<noteq> []"
      and row: "find (\<lambda>k. k_key_hash k = hashApiKey lib apiKey \<and> k_is_active k) (api_keys st)
                  = Some row"
      and ne: "\<not> key_expired now row"
      and p: "p = \<lparr>p_id = k_id row, p_deviceId = k_device_id row,
                p_permissions = split_comma (k_permissions row)\<rparr>"
      by (rule authenticateRequest_Inr)
    from find_SomeD [OF row] have r: "row \<in> set (api_keys st)"
      "k_key_hash row = hashApiKey lib apiKey" "k_is_active row" by simp_all
    show ?thesis
    proof (cases "permission \<in> set (p_permissions p)")
      case True
      then have "gate lib now st m path req = Inr (e, Some p)"
        using assms perm Inr by (simp add: gate_def requirePermission_def)
      with key r ne p True show ?thesis by auto
    next
      case False
      then have "\<exists>msg. gate lib now st m path req = Inl (403, msg)"
        using assms perm Inr by (simp add: gate_def requirePermission_def)
      then show ?thesis by auto
    qed
  qed
  have arr: "\<forall>v. presented_key req = Some v \<and> (\<forall>s. v \<noteq> Str s) \<longrightarrow>
                gate lib now st m path req = Inl (500, ''Authentication failed'')"
  proof (intro allI impI)
    fix v assume "presented_key req = Some v \<and> (\<forall>s. v \<noteq> Str s)"
    then have "authenticateRequest lib now req st = Inl (500, ''Authentication failed'')"
      using authenticateRequest_not_string by blast
    then show "gate lib now st m path req = Inl (500, ''Authentication failed'')"
      using assms perm by (simp add: gate_def)
  qed
  from perm main arr
  show "\<exists>permission. perm = Some permission \<and>
             ((\<exists>err. gate lib now st m path req = Inl err \<and>
                 (fst err = 401 \<or> fst err = 403 \<or> fst err = 500)) \<or>
              (\<exists>k row p. gate lib now st m path req = Inr (e, Some p) \<and>
                 presented_key req = Some (Str k) \<and> k \<noteq> [] \<and>
                 row \<in> set (api_keys st) \<and> k_key_hash row = hashApiKey lib k \<and>
                 k_is_active row \<and> \<not> key_expired now row \<and>
                 permission \<in> set (split_comma (k_permissions row)) \<and>
                 p_id p = k_id row \<and> p_deviceId p = k_device_id row)) \<and>
             (\<forall>v. presented_key req = Some v \<and> (\<forall>s. v \<noteq> Str s) \<longrightarrow>
                gate lib now st m path req = Inl (500, ''Authentication failed''))"
    by blast
next
  assume "e \<in> set public_endpoints"
  with dispatch_guard [OF assms] have "perm = None" by simp
  with assms show "gate lib now st m path req = Inr (e, None)"
    by (simp add: gate_def)
qed

lemma dispatch_delete_file:
  "dispatch DELETE [''api'', ''files'', ''f1''] =
     Routed (DELETE, [Param], Some ''write'', Files_delete)"
  by code_simp

lemma dispatch_delete_file_variant:
  "dispatch DELETE [''API'', ''Files'', ''f1'', ''''] =
     Routed (DELETE, [Param], Some ''write'', Files_delete)"
  by code_simp

lemma dispatch_file_info:
  "dispatch GET [''api'', ''files'', ''f1'', ''info''] =
     Routed (GET, [Param, Lit ''info''], None, Files_info)"
  by code_simp

theorem gated_endpoints_require_key_witness:
  "gate sample_lib 0 sample_server DELETE [''API'', ''Files'', ''f1'', ''''] no_key =
     Inl (401, ''API key required'') \<and>
   gate sample_lib 0 sample_server DELETE [''API'', ''Files'', ''f1'', ''''] repeated_key =
     Inl (500, ''Authentication failed'') \<and>
   gate sample_lib 0 sample_server DELETE [''API'', ''Files'', ''f1'', ''''] sample_credentials =
     Inr (Files_delete, Some \<lparr>p_id = ''k1'', p_deviceId = ''self'',
                               p_permissions = [''read'', ''write'']\<rparr>) \<and>
   gate sample_lib 0 sample_server GET [''api'', ''files'', ''f1'', ''info''] no_key =
     Inr (Files_info, None) \<and>
   gate sample_lib 0 sample_server DELETE [''api'', ''files'', ''%zz''] sample_credentials =
     Inl (400, ''Failed to decode param'')"
proof -
  have g1: "Files_delete \<in> set gated_endpoints" by (simp add: gated_endpoints_def)
  have g2: "Files_info \<in> set public_endpoints" by (simp add: public_endpoints_def)
  have a: "gate sample_lib 0 sample_server DELETE [''API'', ''Files'', ''f1'', ''''] no_key =
     Inl (401, ''API key required'')"
    by (simp add: gate_def dispatch_delete_file_variant authenticateRequest_def no_key_def
        presented_key_def truthy_def)
  have b: "gate sample_lib 0 sample_server DELETE [''API'', ''Files'', ''f1'', '''']
     sample_credentials =
     Inr (Files_delete, Some \<lparr>p_id = ''k1'', p_deviceId = ''self'',
                               p_permissions = [''read'', ''write'']\<rparr>)"
    by (simp add: gate_def dispatch_delete_file_variant authenticateRequest_def presented_key_def
        truthy_def sample_credentials_def sample_server_def sample_key_def hashApiKey_def
        sample_lib_def key_expired_def requirePermission_def)
  have k: "presented_key repeated_key = Some (Arr [Str ''secret'', Str ''secret'']) \<and>
           (\<forall>s. Arr [Str ''secret'', Str ''secret''] \<noteq> Str s)"
    by (simp add: presented_key_def repeated_key_def truthy_def)
  from gated_endpoints_require_key
    [OF dispatch_delete_file_variant, of sample_lib 0 sample_server repeated_key] g1 k
  have c: "gate sample_lib 0 sample_server DELETE [''API'', ''Files'', ''f1'', ''''] repeated_key =
     Inl (500, ''Authentication failed'')" by blast
  from gated_endpoints_require_key [OF dispatch_file_info, of sample_lib 0 sample_server no_key] g2
  have d: "gate sample_lib 0 sample_server GET [''api'', ''files'', ''f1'', ''info''] no_key =
     Inr (Files_info, None)" by simp
  have u: "dispatch DELETE [''api'', ''files'', ''%zz''] = Undecodable" by code_simp
  have e: "gate sample_lib 0 sample_server DELETE [''api'', ''files'', ''%zz''] sample_credentials =
     Inl (400, ''Failed to decode param'')"
    by (simp add: gate_def u)
  from a b c d e show ?thesis by simp
qed

text \<open>
  C1 as stated fails: a caller with no key at all (whom \<open>authenticateRequest\<close>
  would answer 401) reaches device registration and the bootstrap of the first key,
  neither of which is file list, upload, download or info; the same caller reaches
  the revocation and the listing of keys.
\<close>

theorem ungated_routes_counterexample:
  "authenticateRequest sample_lib 0 no_key sample_server = Inl (401, ''API key required'') \<and>
   gate sample_lib 0 sample_server POST [''api'', ''devices'', ''register''] no_key =
     Inr (Devices_register, None) \<and>
   gate sample_lib 0 sample_server POST [''api'', ''auth'', ''bootstrap''] no_key =
     Inr (Auth_bootstrap, None) \<and>
   gate sample_lib 0 sample_server DELETE [''api'', ''auth'', ''api-keys'', ''k1''] no_key =
     Inr (Auth_revoke_key, None) \<and>
   gate sample_lib 0 sample_server GET [''api'', ''auth'', ''api-keys''] no_key =
     Inr (Auth_list_keys, None)"
proof -
  have d1: "dispatch POST [''api'', ''devices'', ''register''] =
              Routed (POST, [Lit ''register''], None, Devices_register)" by code_simp
  have d2: "dispatch POST [''api'', ''auth'', ''bootstrap''] =
              Routed (POST, [Lit ''bootstrap''], None, Auth_bootstrap)" by code_simp
  have d3: "dispatch DELETE [''api'', ''auth'', ''api-keys'', ''k1''] =
              Routed (DELETE, [Lit ''api-keys'', Param], None, Auth_revoke_key)" by code_simp
  have d4: "dispatch GET [''api'', ''auth'', ''api-keys''] =
              Routed (GET, [Lit ''api-keys''], None, Auth_list_keys)" by code_simp
  show ?thesis
    by (simp add: gate_def d1 d2 d3 d4 authenticateRequest_def no_key_def presented_key_def
        truthy_def)
qed

text \<open>
  C9. \<open>authenticateRequest\<close> reads \<open>req.headers['x-api-key'] || req.query.apiKey\<close>.
  A request with no (or an empty) header and a non-empty key \<open>k\<close> in the query
  string gets from \<open>authenticateRequest\<close>, and from the middleware chain of every
  route, exactly the answer a request with \<open>k\<close> in the header gets; when \<open>k\<close> is the
  key of an active, unexpired row, that answer is the row's id, device and
  permissions, and the request reaches the handler of every route whose permission
  the row holds.
\<close>

theorem query_key_same_as_header:
  assumes "k \<noteq> []" and "\<not> truthy h"
  shows "authenticateRequest lib now \<lparr>header_x_api_key = h, query_apiKey = Some (Str k)\<rparr> st =
         authenticateRequest lib now \<lparr>header_x_api_key = Some k, query_apiKey = q\<rparr> st \<and>
         gate lib now st m path \<lparr>header_x_api_key = h, query_apiKey = Some (Str k)\<rparr> =
         gate lib now st m path \<lparr>header_x_api_key = Some k, query_apiKey = q\<rparr> \<and>
         (find (\<lambda>r. k_key_hash r = hashApiKey lib k \<and> k_is_active r) (api_keys st) = Some row
            \<and> \<not> key_expired now row \<longrightarrow>
          authenticateRequest lib now \<lparr>header_x_api_key = h, query_apiKey = Some (Str k)\<rparr> st =
            Inr \<lparr>p_id = k_id row, p_deviceId = k_device_id row,
                 p_permissions = split_comma (k_permissions row)\<rparr>) \<and>
         (dispatch m path = Routed (m', pat, Some permission, e) \<and>
          find (\<lambda>r. k_key_hash r = hashApiKey lib k \<and> k_is_active r) (api_keys st) = Some row
            \<and> \<not> key_expired now row \<and> permission \<in> set (split_comma (k_permissions row)) \<longrightarrow>
          gate lib now st m path \<lparr>header_x_api_key = h, query_apiKey = Some (Str k)\<rparr> =
            Inr (e, Some \<lparr>p_id = k_id row, p_deviceId = k_device_id row,
                          p_permissions = split_comma (k_permissions row)\<rparr>))"
proof -
  have e: "presented_key \<lparr>header_x_api_key = h, query_apiKey = Some (Str k)\<rparr> =
           presented_key \<lparr>header_x_api_key = Some k, query_apiKey = q\<rparr>"
    using assms by (simp add: presented_key_def truthy_def)
  have pk: "presented_key \<lparr>header_x_api_key = h, query_apiKey = Some (Str k)\<rparr> = Some (Str k)"
    using assms by (simp add: presented_key_def)
  have c1: "authenticateRequest lib now \<lparr>header_x_api_key = h, query_apiKey = Some (Str k)\<rparr> st =
         authenticateRequest lib now \<lparr>header_x_api_key = Some k, query_apiKey = q\<rparr> st"
    by (rule authenticateRequest_by_key [OF e])
  have c2: "gate lib now st m path \<lparr>header_x_api_key = h, query_apiKey = Some (Str k)\<rparr> =
         gate lib now st m path \<lparr>header_x_api_key = Some k, query_apiKey = q\<rparr>"
    by (rule gate_by_key [OF e])
  have c3: "find (\<lambda>r. k_key_hash r = hashApiKey lib k \<and> k_is_active r) (api_keys st) = Some row
         \<and> \<not> key_expired now row \<longrightarrow>
         authenticateRequest lib now \<lparr>header_x_api_key = h, query_apiKey = Some (Str k)\<rparr> st =
           Inr \<lparr>p_id = k_id row, p_deviceId = k_device_id row,
                p_permissions = split_comma (k_permissions row)\<rparr>"
    using assms pk by (simp add: authenticateRequest_def)
  have c4: "dispatch m path = Routed (m', pat, Some permission, e) \<and>
          find (\<lambda>r. k_key_hash r = hashApiKey lib k \<and> k_is_active r) (api_keys st) = Some row
            \<and> \<not> key_expired now row \<and> permission \<in> set (split_comma (k_permissions row)) \<longrightarrow>
          gate lib now st m path \<lparr>header_x_api_key = h, query_apiKey = Some (Str k)\<rparr> =
            Inr (e, Some \<lparr>p_id = k_id row, p_deviceId = k_device_id row,
                          p_permissions = split_comma (k_permissions row)\<rparr>)"
  proof (intro impI, elim conjE)
    assume d: "dispatch m path = Routed (m', pat, Some permission, e)"
      and f: "find (\<lambda>r. k_key_hash r = hashApiKey lib k \<and> k_is_active r) (api_keys st) = Some row"
      and x: "\<not> key_expired now row"
      and q: "permission \<in> set (split_comma (k_permissions row))"
    from c3 f x
    have "authenticateRequest lib now \<lparr>header_x_api_key = h, query_apiKey = Some (Str k)\<rparr> st =
           Inr \<lparr>p_id = k_id row, p_deviceId = k_device_id row,
                p_permissions = split_comma (k_permissions row)\<rparr>" by blast
    with d q
    show "gate lib now st m path \<lparr>header_x_api_key = h, query_apiKey = Some (Str k)\<rparr> =
            Inr (e, Some \<lparr>p_id = k_id row, p_deviceId = k_device_id row,
                          p_permissions = split_comma (k_permissions row)\<rparr>)"
      by (simp add: gate_def requirePermission_def)
  qed
  from c1 c2 c3 c4 show ?thesis by blast
qed

theorem query_key_same_as_header_witness:
  "authenticateRequest sample_lib 0
     \<lparr>header_x_api_key = None, query_apiKey = Some (Str ''secret'')\<rparr> sample_server =
   authenticateRequest sample_lib 0
     \<lparr>header_x_api_key = Some ''secret'', query_apiKey = None\<rparr> sample_server \<and>
   gate sample_lib 0 sample_server DELETE [''api'', ''files'', ''f1'']
     \<lparr>header_x_api_key = None, query_apiKey = Some (Str ''secret'')\<rparr> =
   gate sample_lib 0 sample_server DELETE [''api'', ''files'', ''f1'']
     \<lparr>header_x_api_key = Some ''secret'', query_apiKey = None\<rparr> \<and>
   authenticateRequest sample_lib 0
     \<lparr>header_x_api_key = None, query_apiKey = Some (Str ''secret'')\<rparr> sample_server =
   Inr \<lparr>p_id = ''k1'', p_deviceId = ''self'', p_permissions = [''read'', ''write'']\<rparr> \<and>
   gate sample_lib 0 sample_server DELETE [''api'', ''files'', ''f1'']
     \<lparr>header_x_api_key = None, query_apiKey = Some (Str ''secret'')\<rparr> =
   Inr (Files_delete,
        Some \<lparr>p_id = ''k1'', p_deviceId = ''self'', p_permissions = [''read'', ''write'']\<rparr>)"
proof -
  have k: "''secret'' \<noteq> []" by simp
  have t: "\<not> truthy None" by (simp add: truthy_def)
  have f: "find (\<lambda>r. k_key_hash r = hashApiKey sample_lib ''secret'' \<and> k_is_active r)
             (api_keys sample_server) = Some sample_key \<and> \<not> key_expired 0 sample_key"
    by (simp add: sample_server_def sample_key_def hashApiKey_def sample_lib_def
        key_expired_def)
  have w: "''write'' \<in> set (split_comma (k_permissions sample_key))"
    by (simp add: sample_key_def)
  have r: "\<lparr>p_id = k_id sample_key, p_deviceId = k_device_id sample_key,
            p_permissions = split_comma (k_permissions sample_key)\<rparr> =
           \<lparr>p_id = ''k1'', p_deviceId = ''self'', p_permissions = [''read'', ''write'']\<rparr>"
    by (simp add: sample_key_def)
  note T = query_key_same_as_header
    [OF k t, of sample_lib 0 sample_server None DELETE "[''api'', ''files'', ''f1'']" sample_key
       DELETE "[Param]" "''write''" Files_delete]
  from T f have c: "authenticateRequest sample_lib 0
     \<lparr>header_x_api_key = None, query_apiKey = Some (Str ''secret'')\<rparr> sample_server =
     Inr \<lparr>p_id = k_id sample_key, p_deviceId = k_device_id sample_key,
            p_permissions = split_comma (k_permissions sample_key)\<rparr>" by blast
  from T f w dispatch_delete_file have g: "gate sample_lib 0 sample_server DELETE
     [''api'', ''files'', ''f1'']
     \<lparr>header_x_api_key = None, query_apiKey = Some (Str ''secret'')\<rparr> =
     Inr (Files_delete, Some \<lparr>p_id = k_id sample_key, p_deviceId = k_device_id sample_key,
            p_permissions = split_comma (k_permissions sample_key)\<rparr>)" by blast
  show ?thesis
  proof (intro conjI)
    show "authenticateRequest sample_lib 0
       \<lparr>header_x_api_key = None, query_apiKey = Some (Str ''secret'')\<rparr> sample_server =
       authenticateRequest sample_lib 0
       \<lparr>header_x_api_key = Some ''secret'', query_apiKey = None\<rparr> sample_server"
      using T by (rule conjunct1)
    show "gate sample_lib 0 sample_server DELETE [''api'', ''files'', ''f1'']
       \<lparr>header_x_api_key = None, query_apiKey = Some (Str ''secret'')\<rparr> =
       gate sample_lib 0 sample_server DELETE [''api'', ''files'', ''f1'']
       \<lparr>header_x_api_key = Some ''secret'', query_apiKey = None\<rparr>"
      using T by blast
    show "authenticateRequest sample_lib 0
       \<lparr>header_x_api_key = None, query_apiKey = Some (Str ''secret'')\<rparr> sample_server =
       Inr \<lparr>p_id = ''k1'', p_deviceId = ''self'', p_permissions = [''read'', ''write'']\<rparr>"
      using c r by simp
    show "gate sample_lib 0 sample_server DELETE [''api'', ''files'', ''f1'']
       \<lparr>header_x_api_key = None, query_apiKey = Some (Str ''secret'')\<rparr> =
       Inr (Files_delete,
         Some \<lparr>p_id = ''k1'', p_deviceId = ''self'', p_permissions = [''read'', ''write'']\<rparr>)"
      using g r by simp
  qed
qed

lemma revoke_hashes:
  "map k_key_hash (api_keys (revokeApiKey keyId st)) = map k_key_hash (api_keys st)"
  by (simp add: revokeApiKey_def comp_def)

text \<open>
  C7. In a key table whose hashes are pairwise different (every key is 32 fresh
  random bytes), a request that authenticates is answered 401, at any later time,
  once \<open>revokeApiKey\<close> has run on the id of the key it authenticated with. The
  revocation removes no row and changes no hash: the table differs from the old one
  in \<open>is_active\<close> only.
\<close>

theorem revoked_key_is_rejected:
  assumes "distinct (map k_key_hash (api_keys st))"
    and "authenticateRequest lib now req st = Inr p"
  shows "authenticateRequest lib now' req (revokeApiKey (p_id p) st) =
           Inl (401, ''Invalid API key'') \<and>
         map k_key_hash (api_keys (revokeApiKey (p_id p) st)) = map k_key_hash (api_keys st) \<and>
         map (\<lambda>k. k\<lparr>k_is_active := False\<rparr>) (api_keys (revokeApiKey (p_id p) st)) =
         map (\<lambda>k. k\<lparr>k_is_active := False\<rparr>) (api_keys st)"
proof -
  from assms(2) obtain apiKey row where
    key: "presented_key req = Some (Str apiKey)" "apiKey \<noteq> []"
    and row: "find (\<lambda>k. k_key_hash k = hashApiKey lib apiKey \<and> k_is_active k) (api_keys st)
                = Some row"
    and p: "p = \<lparr>p_id = k_id row, p_deviceId = k_device_id row,
                p_permissions = split_comma (k_permissions row)\<rparr>"
    by (rule authenticateRequest_Inr)
  from find_SomeD [OF row]
  have rin: "row \<in> set (api_keys st)" and rh: "k_key_hash row = hashApiKey lib apiKey"
    by simp_all
  from assms(1) have inj: "inj_on k_key_hash (set (api_keys st))"
    by (simp add: distinct_map)
  have none: "find (\<lambda>k. k_key_hash k = hashApiKey lib apiKey \<and> k_is_active k)
           (api_keys (revokeApiKey (p_id p) st)) = None"
  proof -
    have "\<not> (k_key_hash k' = hashApiKey lib apiKey \<and> k_is_active k')"
      if "k' \<in> set (api_keys (revokeApiKey (p_id p) st))" for k'
    proof
      assume a: "k_key_hash k' = hashApiKey lib apiKey \<and> k_is_active k'"
      from that obtain k0 where k0: "k0 \<in> set (api_keys st)"
        and k': "k' = (if k_id k0 = p_id p then k0\<lparr>k_is_active := False\<rparr> else k0)"
        by (auto simp: revokeApiKey_def)
      from k' a have "k_key_hash k0 = hashApiKey lib apiKey" by (auto split: if_splits)
      with rh have "k_key_hash k0 = k_key_hash row" by simp
      then have "k0 = row" by (rule inj_onD [OF inj _ k0 rin])
      with k' p have "\<not> k_is_active k'" by simp
      with a show False by simp
    qed
    then show ?thesis by (simp add: find_None_iff)
  qed
  have "authenticateRequest lib now' req (revokeApiKey (p_id p) st) =
          Inl (401, ''Invalid API key'')"
    using key none by (simp add: authenticateRequest_def)
  moreover
  have "map (\<lambda>k. k\<lparr>k_is_active := False\<rparr>) (api_keys (revokeApiKey (p_id p) st)) =
         map (\<lambda>k. k\<lparr>k_is_active := False\<rparr>) (api_keys st)"
    by (simp add: revokeApiKey_def comp_def if_distrib cong: if_cong)
  ultimately show ?thesis by (simp add: revoke_hashes)
qed

theorem revoked_key_is_rejected_witness:
  "authenticateRequest sample_lib 0
     \<lparr>header_x_api_key = Some ''secret'', query_apiKey = None\<rparr> sample_server =
     Inr \<lparr>p_id = ''k1'', p_deviceId = ''self'', p_permissions = [''read'', ''write'']\<rparr> \<and>
   authenticateRequest sample_lib 5
     \<lparr>header_x_api_key = Some ''secret'', query_apiKey = None\<rparr>
     (revokeApiKey ''k1'' sample_server) = Inl (401, ''Invalid API key'') \<and>
   map k_key_hash (api_keys (revokeApiKey ''k1'' sample_server)) = [''terces'']"
proof -
  have a: "authenticateRequest sample_lib 0
     \<lparr>header_x_api_key = Some ''secret'', query_apiKey = None\<rparr> sample_server =
     Inr \<lparr>p_id = ''k1'', p_deviceId = ''self'', p_permissions = [''read'', ''write'']\<rparr>"
    by (simp add: authenticateRequest_def presented_key_def truthy_def sample_server_def
        sample_key_def hashApiKey_def sample_lib_def key_expired_def)
  have d: "distinct (map k_key_hash (api_keys sample_server))"
    by (simp add: sample_server_def)
  from revoked_key_is_rejected [OF d a, of 5] a
  show ?thesis by (simp add: sample_server_def sample_key_def)
qed

section \<open>Properties of the file routes\<close>

lemma unlinkSync_frame:
  "unlinkSync p st = Inr st' \<Longrightarrow>
     devices st' = devices st \<and> files st' = files st \<and> api_keys st' = api_keys st \<and>
     disk st' = (disk st)(p := None)"
  by (auto simp: unlinkSync_def split: option.splits)

lemma writeFileSync_frame:
  "devices (writeFileSync p b st) = devices st"
  "files (writeFileSync p b st) = files st"
  "api_keys (writeFileSync p b st) = api_keys st"
  "disk (writeFileSync p b st) = (disk st)(p \<mapsto> b)"
  by (simp_all add: writeFileSync_def)

lemma insert_device_Inr:
  "insert_device row st = Inr st' \<Longrightarrow>
     devices st' = devices st @ [row] \<and> files st' = files st \<and> api_keys st' = api_keys st \<and>
     disk st' = disk st \<and> d_id row \<notin> set (map d_id (devices st))"
  by (auto simp: insert_device_def split: if_splits)

lemma insert_file_Inr:
  "insert_file row st = Inr st' \<Longrightarrow>
     files st' = files st @ [row] \<and> devices st' = devices st \<and> api_keys st' = api_keys st \<and>
     disk st' = disk st \<and> f_id row \<notin> set (map f_id (files st))"
  by (auto simp: insert_file_def split: if_splits)

lemma anonymous_device_files:
  "anonymous_device now env req st = Inr (src, st') \<Longrightarrow> files st' = files st \<and> disk st' = disk st"
  "anonymous_device now env req st = Inl (e, st') \<Longrightarrow> st' = st"
  by (auto simp: anonymous_device_def Let_def split: option.splits sum.splits dest: insert_device_Inr)

lemma source_device_files:
  "source_device now env req st = Inr (src, st') \<Longrightarrow> files st' = files st \<and> disk st' = disk st"
  "source_device now env req st = Inl (e, st') \<Longrightarrow> st' = st"
  by (auto simp: source_device_def split: option.splits if_splits dest: anonymous_device_files)

lemma store_encrypted_Inl:
  "store_encrypted lib env f st = Inl (e, st') \<Longrightarrow>
     devices st' = devices st \<and> files st' = files st \<and> api_keys st' = api_keys st"
  by (auto simp: store_encrypted_def Let_def writeFileSync_frame split: sum.splits)

lemma store_encrypted_Inr:
  "store_encrypted lib env f st = Inr (k, st') \<Longrightarrow>
     devices st' = devices st \<and> files st' = files st \<and> api_keys st' = api_keys st \<and>
     k = generateKey lib (key_bytes env) \<and>
     (\<exists>pt. disk st (uf_path f) = Some pt \<and>
        disk st' = ((disk st)(uf_path f @ ''.enc'' \<mapsto> encryptFile lib (iv_bytes env) pt k))
                     (uf_path f := None))"
  by (auto simp: store_encrypted_def Let_def writeFileSync_frame readFileSync_def
      split: sum.splits option.splits dest!: unlinkSync_frame)

lemma upload_catch_frame:
  "devices (upload_catch f st) = devices st"
  "files (upload_catch f st) = files st"
  "api_keys (upload_catch f st) = api_keys st"
  by (auto simp: upload_catch_def split: sum.splits dest!: unlinkSync_frame)

lemma rename_device_frame:
  "files (rename_device n src st) = files st"
  "disk (rename_device n src st) = disk st"
  "api_keys (rename_device n src st) = api_keys st"
  "map d_id (devices (rename_device n src st)) = map d_id (devices st)"
  "map d_is_trusted (devices (rename_device n src st)) = map d_is_trusted (devices st)"
  by (auto simp: rename_device_def comp_def split: option.splits)

lemma rename_device_cong:
  "devices st = devices st' \<Longrightarrow>
   devices (rename_device n src st) = devices (rename_device n src st')"
  by (auto simp: rename_device_def split: option.splits)

lemma upload_try_Inr:
  assumes "upload_try lib cfg now env req f st = Inr (ok, st')"
  obtains src st1 ex where "source_device now env req st = Inr (src, st1)"
    and "expiry cfg now req = Inr ex"
    and "files st' = files st @ [new_file_row now env f src (generateKey lib (key_bytes env)) ex]"
    and "fresh_fileId env \<notin> set (map f_id (files st))"
    and "devices st' = devices (rename_device (up_deviceName req) src st1)"
    and "ok = \<lparr>ok_fileId = fresh_fileId env, ok_filename = uf_originalname f,
                ok_size = uf_size f, ok_mimeType = uf_mimetype f,
                ok_deviceId = src, ok_expiresAt = ex, ok_uploadTime = now\<rparr>"
proof -
  from assms obtain src st1 where s: "source_device now env req st = Inr (src, st1)"
    by (auto simp: upload_try_def split: sum.splits)
  with assms obtain k st2 where e: "store_encrypted lib env f st1 = Inr (k, st2)"
    by (auto simp: upload_try_def split: sum.splits)
  with s assms obtain ex where x: "expiry cfg now req = Inr ex"
    by (auto simp: upload_try_def split: sum.splits)
  with s e assms obtain st3 where i: "insert_file (new_file_row now env f src k ex) st2 = Inr st3"
    by (auto simp: upload_try_def split: sum.splits)
  with s e x assms have st': "st' = rename_device (up_deviceName req) src st3"
    and ok: "ok = \<lparr>ok_fileId = fresh_fileId env, ok_filename = uf_originalname f,
                ok_size = uf_size f, ok_mimeType = uf_mimetype f,
                ok_deviceId = src, ok_expiresAt = ex, ok_uploadTime = now\<rparr>"
    by (auto simp: upload_try_def)
  from store_encrypted_Inr [OF e] have 2: "devices st2 = devices st1" "files st2 = files st1"
    "k = generateKey lib (key_bytes env)" by simp_all
  from insert_file_Inr [OF i] have 3: "files st3 = files st2 @ [new_file_row now env f src k ex]"
    "devices st3 = devices st2" "f_id (new_file_row now env f src k ex) \<notin> set (map f_id (files st2))"
    by simp_all
  from source_device_files(1) [OF s] have 1: "files st1 = files st" by simp
  have "devices st' = devices (rename_device (up_deviceName req) src st1)"
    unfolding st' by (rule rename_device_cong) (simp add: 2 3)
  moreover have "files st' = files st @ [new_file_row now env f src (generateKey lib (key_bytes env)) ex]"
    unfolding st' by (simp add: rename_device_frame 1 2 3)
  moreover have "fresh_fileId env \<notin> set (map f_id (files st))"
    using 3(3) by (simp add: 1 2 new_file_row_def)
  ultimately show ?thesis using that s x ok by blast
qed

lemma upload_try_Inl:
  assumes "upload_try lib cfg now env req f st = Inl (e, st')"
  shows "files st' = files st \<and>
         (source_device now env req st = Inl (e, st) \<and> st' = st \<or>
          (\<exists>src st1. source_device now env req st = Inr (src, st1) \<and>
             devices st' = devices st1))"
proof (cases "source_device now env req st")
  case (Inl x)
  with assms have "x = (e, st')" by (simp add: upload_try_def)
  with Inl source_device_files(2) [of now env req st e st'] show ?thesis by simp
next
  case (Inr y)
  then obtain src st1 where s: "source_device now env req st = Inr (src, st1)" by (cases y) simp
  from source_device_files(1) [OF s] have 1: "files st1 = files st" by simp
  show ?thesis
  proof (cases "store_encrypted lib env f st1")
    case (Inl x)
    with assms s have "x = (e, st')" by (simp add: upload_try_def)
    with Inl store_encrypted_Inl [of lib env f st1 e st'] s 1 show ?thesis by auto
  next
    case (Inr z)
    then obtain k st2 where t: "store_encrypted lib env f st1 = Inr (k, st2)" by (cases z) simp
    from store_encrypted_Inr [OF t] have 2: "devices st2 = devices st1" "files st2 = files st1"
      by simp_all
    from assms s t have "st' = st2"
      by (auto simp: upload_try_def split: sum.splits)
    with 1 2 s show ?thesis by auto
  qed
qed

lemma find_append_new:
  "\<forall>x \<in> set xs. \<not> P x \<Longrightarrow> P y \<Longrightarrow> find P (xs @ [y]) = Some y"
  by (induction xs) auto

lemma anonymous_device_creates:
  assumes "ip = or_default (js_or (up_ip req) (up_remoteAddress req)) ''unknown''"
    and "name = or_default (up_deviceName req) (''Anonymous Device ('' @ ip @ '')'')"
    and "find (\<lambda>d. d_name d = name \<and> d_ip_address d = Some ip) (devices st) = None"
    and "fresh_deviceId env \<notin> set (map d_id (devices st))"
  shows "\<exists>st1. anonymous_device now env req st = Inr (fresh_deviceId env, st1) \<and>
           devices st1 = devices st @
             [\<lparr>d_id = fresh_deviceId env, d_name = name, d_ip_address = Some ip,
               d_fingerprint = None, d_last_seen = now, d_is_trusted = True,
               d_created_at = now\<rparr>]"
  using assms by (simp add: anonymous_device_def Let_def insert_device_def)

lemma rename_new_device:
  assumes "name = or_default n dflt"
    and "src \<notin> set (map d_id ds)"
    and "devices st1 = ds @ [row]" and "d_id row = src" and "d_name row = name"
  shows "devices (rename_device n src st1) = ds @ [row]"
proof -
  from assms(2) have "\<forall>x \<in> set ds. \<not> d_id x = src" by force
  then have f: "find (\<lambda>d. d_id d = src) (ds @ [row]) = Some row"
    using assms(4) by (rule find_append_new)
  show ?thesis
    using assms f by (auto simp: rename_device_def or_default_def split: option.splits)
qed

lemma anonymous_upload_devices:
  assumes "\<not> truthy (up_deviceId req)"
    and "up_file req = Some f"
    and "ip = or_default (js_or (up_ip req) (up_remoteAddress req)) ''unknown''"
    and "name = or_default (up_deviceName req) (''Anonymous Device ('' @ ip @ '')'')"
    and "find (\<lambda>d. d_name d = name \<and> d_ip_address d = Some ip) (devices st) = None"
    and "fresh_deviceId env \<notin> set (map d_id (devices st))"
  shows "devices (snd (upload lib cfg now env req st)) = devices st @
             [\<lparr>d_id = fresh_deviceId env, d_name = name, d_ip_address = Some ip,
               d_fingerprint = None, d_last_seen = now, d_is_trusted = True,
               d_created_at = now\<rparr>]"
proof -
  let ?row = "\<lparr>d_id = fresh_deviceId env, d_name = name, d_ip_address = Some ip,
               d_fingerprint = None, d_last_seen = now, d_is_trusted = True,
               d_created_at = now\<rparr>"
  from anonymous_device_creates [OF assms(3-6)] obtain st1 where
    a: "anonymous_device now env req st = Inr (fresh_deviceId env, st1)"
    and d: "devices st1 = devices st @ [?row]" by blast
  from assms(1) a have s: "source_device now env req st = Inr (fresh_deviceId env, st1)"
    by (auto simp: source_device_def truthy_def split: option.splits)
  show ?thesis
  proof (cases "upload_try lib cfg now env req f st")
    case (Inl x)
    obtain e st' where x: "x = (e, st')" by (cases x)
    from upload_try_Inl [of lib cfg now env req f st e st'] Inl x s d
    have "devices st' = devices st @ [?row]" by auto
    with Inl x assms(2) show ?thesis by (simp add: upload_def upload_catch_frame)
  next
    case (Inr y)
    obtain ok st' where y: "y = (ok, st')" by (cases y)
    with Inr have "upload_try lib cfg now env req f st = Inr (ok, st')" by simp
    then obtain src st1' where s': "source_device now env req st = Inr (src, st1')"
      and d': "devices st' = devices (rename_device (up_deviceName req) src st1')"
      by (rule upload_try_Inr)
    from s s' have "src = fresh_deviceId env" "st1' = st1" by simp_all
    with d' have "devices st' = devices (rename_device (up_deviceName req) (fresh_deviceId env) st1)"
      by simp
    also have "\<dots> = devices st @ [?row]"
      by (rule rename_new_device [OF assms(4) assms(6) d]) simp_all
    finally show ?thesis using Inr y assms(2) by (simp add: upload_def)
  qed
qed

lemma registerDevice_creates:
  assumes "dm_deviceId cfg \<notin> set (map d_id (devices st))"
  shows "\<exists>st'. registerDevice lib cfg now st = Inr st' \<and>
           devices st' = devices st @
             [\<lparr>d_id = dm_deviceId cfg, d_name = dm_deviceName cfg,
               d_ip_address = Some (dm_localIP cfg),
               d_fingerprint = Some (generateFingerprint lib (dm_publicKey cfg)),
               d_last_seen = now, d_is_trusted = True, d_created_at = now\<rparr>]"
proof -
  from assms have "find (\<lambda>d. d_id d = dm_deviceId cfg) (devices st) = None"
    by (force simp: find_None_iff)
  with assms show ?thesis
    by (simp add: registerDevice_def Let_def insert_device_def)
qed

lemma addDiscoveredDevice_creates:
  assumes "di_deviceId info \<noteq> dm_deviceId cfg"
    and "di_deviceId info \<notin> set (map d_id (devices st))"
  shows "\<exists>st'. addDiscoveredDevice lib cfg now info st = Inr st' \<and>
           devices st' = devices st @
             [\<lparr>d_id = di_deviceId info, d_name = di_deviceName info,
               d_ip_address = di_ipAddress info,
               d_fingerprint = Some (generateFingerprint lib (di_publicKey info)),
               d_last_seen = now, d_is_trusted = False, d_created_at = now\<rparr>]"
proof -
  from assms have "find (\<lambda>d. d_id d = di_deviceId info) (devices st) = None"
    by (force simp: find_None_iff)
  with assms show ?thesis
    by (simp add: addDiscoveredDevice_def Let_def insert_device_def)
qed

lemma register_route_creates:
  assumes "rr_deviceName r = Some dn" "dn \<noteq> []" "rr_publicKey r = Some pk" "pk \<noteq> []"
    and "uuid \<noteq> dm_deviceId cfg"
    and "uuid \<notin> set (map d_id (devices st))"
  shows "fst (register_device_route lib cfg now uuid r st) = Inr uuid \<and>
         devices (snd (register_device_route lib cfg now uuid r st)) = devices st @
             [\<lparr>d_id = uuid, d_name = dn,
               d_ip_address = js_or (rr_ipAddress r) (rr_ip r),
               d_fingerprint = Some (generateFingerprint lib pk),
               d_last_seen = now, d_is_trusted = False, d_created_at = now\<rparr>]"
proof -
  let ?info = "\<lparr>di_deviceId = uuid, di_deviceName = dn,
                 di_ipAddress = js_or (rr_ipAddress r) (rr_ip r), di_publicKey = pk\<rparr>"
  from addDiscoveredDevice_creates [of ?info cfg st lib now] assms(5,6)
  obtain st' where "addDiscoveredDevice lib cfg now ?info st = Inr st'"
    and "devices st' = devices st @
             [\<lparr>d_id = uuid, d_name = dn,
               d_ip_address = js_or (rr_ipAddress r) (rr_ip r),
               d_fingerprint = Some (generateFingerprint lib pk),
               d_last_seen = now, d_is_trusted = False, d_created_at = now\<rparr>]"
    by auto
  with assms(1-4) show ?thesis
    by (simp add: register_device_route_def)
qed

text \<open>
  C8. An upload that supplies no \<open>deviceId\<close>, from a name and address no device
  row has yet, adds exactly one device row, with \<open>is_trusted\<close> true, whatever else
  the upload does afterwards. \<open>registerDevice\<close>, on a table without the node's own
  id, adds the node's row with \<open>is_trusted\<close> true. \<open>addDiscoveredDevice\<close>, and
  with it \<open>POST /api/devices/register\<close>, on a table without the new id, adds
  the row with \<open>is_trusted\<close> false.
\<close>

theorem device_trust_defaults:
  assumes "\<not> truthy (up_deviceId req)"
    and "up_file req = Some f"
    and "ip = or_default (js_or (up_ip req) (up_remoteAddress req)) ''unknown''"
    and "name = or_default (up_deviceName req) (''Anonymous Device ('' @ ip @ '')'')"
    and "find (\<lambda>d. d_name d = name \<and> d_ip_address d = Some ip) (devices st) = None"
    and "fresh_deviceId env \<notin> set (map d_id (devices st))"
    and "dm_deviceId cfg \<notin> set (map d_id (devices st0))"
    and "di_deviceId info \<noteq> dm_deviceId cfg"
    and "di_deviceId info \<notin> set (map d_id (devices st1))"
    and "rr_deviceName r = Some dn" and "dn \<noteq> []"
    and "rr_publicKey r = Some pk" and "pk \<noteq> []"
    and "uuid \<noteq> dm_deviceId cfg"
    and "uuid \<notin> set (map d_id (devices st2))"
  shows "devices (snd (upload lib cfg now env req st)) = devices st @
             [\<lparr>d_id = fresh_deviceId env, d_name = name, d_ip_address = Some ip,
               d_fingerprint = None, d_last_seen = now, d_is_trusted = True,
               d_created_at = now\<rparr>] \<and>
         (\<exists>st'. registerDevice lib cfg now st0 = Inr st' \<and>
           devices st' = devices st0 @
             [\<lparr>d_id = dm_deviceId cfg, d_name = dm_deviceName cfg,
               d_ip_address = Some (dm_localIP cfg),
               d_fingerprint = Some (generateFingerprint lib (dm_publicKey cfg)),
               d_last_seen = now, d_is_trusted = True, d_created_at = now\<rparr>]) \<and>
         (\<exists>st'. addDiscoveredDevice lib cfg now info st1 = Inr st' \<and>
           devices st' = devices st1 @
             [\<lparr>d_id = di_deviceId info, d_name = di_deviceName info,
               d_ip_address = di_ipAddress info,
               d_fingerprint = Some (generateFingerprint lib (di_publicKey info)),
               d_last_seen = now, d_is_trusted = False, d_created_at = now\<rparr>]) \<and>
         fst (register_device_route lib cfg now uuid r st2) = Inr uuid \<and>
         devices (snd (register_device_route lib cfg now uuid r st2)) = devices st2 @
             [\<lparr>d_id = uuid, d_name = dn,
               d_ip_address = js_or (rr_ipAddress r) (rr_ip r),
               d_fingerprint = Some (generateFingerprint lib pk),
               d_last_seen = now, d_is_trusted = False, d_created_at = now\<rparr>]"
  using anonymous_upload_devices [OF assms(1-6)] registerDevice_creates [OF assms(7)]
    addDiscoveredDevice_creates [OF assms(8,9)] register_route_creates [OF assms(10-15)]
  by simp

theorem device_trust_defaults_witness:
  "map d_is_trusted (devices (snd (upload sample_lib sample_cfg 0 sample_env sample_upload
      sample_server))) = [True] \<and>
   (\<exists>st'. registerDevice sample_lib sample_cfg 0 sample_server = Inr st' \<and>
      map d_is_trusted (devices st') = [True]) \<and>
   (\<exists>st'. addDiscoveredDevice sample_lib sample_cfg 0 sample_info sample_server = Inr st' \<and>
      map d_is_trusted (devices st') = [False]) \<and>
   map d_is_trusted (devices (snd (register_device_route sample_lib sample_cfg 0 ''d2''
      sample_registration sample_server))) = [False]"
proof -
  have h: "\<not> truthy (up_deviceId sample_upload)"
    "up_file sample_upload = Some sample_file"
    "find (\<lambda>d. d_name d = or_default (up_deviceName sample_upload)
              (''Anonymous Device ('' @
                or_default (js_or (up_ip sample_upload) (up_remoteAddress sample_upload))
                  ''unknown'' @ '')'') \<and>
            d_ip_address d =
              Some (or_default (js_or (up_ip sample_upload) (up_remoteAddress sample_upload))
                ''unknown'')) (devices sample_server) = None"
    "fresh_deviceId sample_env \<notin> set (map d_id (devices sample_server))"
    "dm_deviceId sample_cfg \<notin> set (map d_id (devices sample_server))"
    "di_deviceId sample_info \<noteq> dm_deviceId sample_cfg"
    "di_deviceId sample_info \<notin> set (map d_id (devices sample_server))"
    "rr_deviceName sample_registration = Some ''phone''" "''phone'' \<noteq> []"
    "rr_publicKey sample_registration = Some ''pk2''" "''pk2'' \<noteq> []"
    "''d2'' \<noteq> dm_deviceId sample_cfg"
    "''d2'' \<notin> set (map d_id (devices sample_server))"
    by (simp_all add: truthy_def sample_upload_def sample_server_def sample_env_def
        sample_cfg_def sample_registration_def sample_info_def)
  from device_trust_defaults [OF h(1,2) refl refl h(3-13), of sample_lib 0]
  show ?thesis by (auto simp: sample_server_def)
qed

lemma store_encrypted_ok:
  assumes "disk st (uf_path f) = Some pt"
  shows "\<exists>st2. store_encrypted lib env f st = Inr (generateKey lib (key_bytes env), st2) \<and>
           devices st2 = devices st \<and> files st2 = files st \<and>
           disk st2 = ((disk st)(uf_path f @ ''.enc'' \<mapsto>
                         encryptFile lib (iv_bytes env) pt (generateKey lib (key_bytes env))))
                      (uf_path f := None)"
  using assms
  by (simp add: store_encrypted_def Let_def readFileSync_def writeFileSync_def unlinkSync_def)



lemma expiry_NaN:
  "up_expiresInMinutes req = Some m \<Longrightarrow> m \<noteq> [] \<Longrightarrow> parseInt m = None \<Longrightarrow>
   expiry cfg now req = Inl RangeError"
  by (simp add: expiry_def date_plus_def)

text \<open>
  C4, as the code behaves. When the expiry cannot be computed (\<open>expiresInMinutes\<close>
  is not a number, so \<open>toISOString\<close> throws on the invalid date) the handler
  answers 500 and no file row is written, but the ciphertext stays on disk: by then
  the plaintext has been removed, so the first \<open>unlinkSync\<close> of the \<open>catch\<close>
  block throws and the second, which would remove \<open>path.enc\<close>, never runs.
\<close>

theorem failed_upload_leaves_ciphertext:
  assumes "up_file req = Some f" and "uf_path f \<noteq> []"
    and "disk st (uf_path f) = Some pt"
    and "source_device now env req st = Inr (src, st1)"
    and "up_expiresInMinutes req = Some m" and "m \<noteq> []" and "parseInt m = None"
  shows "fst (upload lib cfg now env req st) = Inl (500, ''File upload failed'') \<and>
         files (snd (upload lib cfg now env req st)) = files st \<and>
         disk (snd (upload lib cfg now env req st)) (uf_path f @ ''.enc'') =
           Some (encryptFile lib (iv_bytes env) pt (generateKey lib (key_bytes env)))"
proof -
  from source_device_files(1) [OF assms(4)] have 1: "files st1 = files st" "disk st1 = disk st"
    by simp_all
  with assms(3) have "disk st1 (uf_path f) = Some pt" by simp
  from store_encrypted_ok [OF this, of lib env] obtain st2 where
    e: "store_encrypted lib env f st1 = Inr (generateKey lib (key_bytes env), st2)"
    and 2: "files st2 = files st1"
      "disk st2 = ((disk st1)(uf_path f @ ''.enc'' \<mapsto>
                         encryptFile lib (iv_bytes env) pt (generateKey lib (key_bytes env))))
                      (uf_path f := None)" by blast
  have t: "upload_try lib cfg now env req f st = Inl (RangeError, st2)"
    by (simp add: upload_try_def assms(4) e expiry_NaN [OF assms(5-7)])
  from 2(2) have "disk st2 (uf_path f) = None" by simp
  then have c: "upload_catch f st2 = st2"
    using assms(2) by (simp add: upload_catch_def unlinkSync_def)
  have u: "upload lib cfg now env req st = (Inl (500, ''File upload failed''), st2)"
    by (simp add: upload_def assms(1) t c)
  show ?thesis by (simp add: u 1 2)
qed

theorem failed_upload_leaves_ciphertext_witness:
  "fst (upload sample_lib sample_cfg 1000 sample_env
          (sample_upload\<lparr>up_expiresInMinutes := Some ''abc''\<rparr>) sample_server) =
     Inl (500, ''File upload failed'') \<and>
   files (snd (upload sample_lib sample_cfg 1000 sample_env
          (sample_upload\<lparr>up_expiresInMinutes := Some ''abc''\<rparr>) sample_server)) = [] \<and>
   disk (snd (upload sample_lib sample_cfg 1000 sample_env
          (sample_upload\<lparr>up_expiresInMinutes := Some ''abc''\<rparr>) sample_server))
     ''uploads/u1.txt.enc'' =
     Some (encryptFile sample_lib (replicate 16 7) [104, 105] (generateKey sample_lib [1, 2, 3]))"
proof -
  have w: "space_width ''abc'' = 0"
    by (simp add: space_width_def is_space_def wide_space_def)
  have p: "parseInt ''abc'' = None"
    by (simp add: parseInt_def w parse_unsigned_def parse_digits_def is_digit_def digit_val_def)
  have s: "\<exists>st1. source_device 1000 sample_env
              (sample_upload\<lparr>up_expiresInMinutes := Some ''abc''\<rparr>) sample_server =
            Inr (''d1'', st1)"
    by (simp add: source_device_def anonymous_device_def sample_upload_def sample_server_def
        sample_env_def insert_device_def or_default_def js_or_def truthy_def)
  then obtain st1 where s1: "source_device 1000 sample_env
              (sample_upload\<lparr>up_expiresInMinutes := Some ''abc''\<rparr>) sample_server =
            Inr (''d1'', st1)" by blast
  have h: "up_file (sample_upload\<lparr>up_expiresInMinutes := Some ''abc''\<rparr>) = Some sample_file"
    "uf_path sample_file \<noteq> []"
    "disk sample_server (uf_path sample_file) = Some [104, 105]"
    "up_expiresInMinutes (sample_upload\<lparr>up_expiresInMinutes := Some ''abc''\<rparr>) = Some ''abc''"
    "''abc'' \<noteq> []"
    by (simp_all add: sample_upload_def sample_server_def sample_file_def)
  from failed_upload_leaves_ciphertext [OF h(1-3) s1 h(4,5) p, of sample_lib sample_cfg]
  show ?thesis
    by (simp add: sample_server_def sample_env_def sample_file_def)
qed

lemma find_distinct_id:
  assumes "distinct (map f xs)" and "r \<in> set xs" and "P r"
  shows "find (\<lambda>x. f x = f r \<and> P x) xs = Some r"
  using assms
proof (induction xs)
  case Nil
  then show ?case by simp
next
  case (Cons a xs)
  show ?case
  proof (cases "a = r")
    case True
    with Cons.prems show ?thesis by simp
  next
    case False
    with Cons.prems have "r \<in> set xs" "f a \<noteq> f r" by force+
    with Cons show ?thesis by simp
  qed
qed

lemma find_distinct_none:
  assumes "distinct (map f xs)" and "r \<in> set xs" and "\<not> P r"
  shows "find (\<lambda>x. f x = f r \<and> P x) xs = None"
proof -
  from assms(1) have inj: "inj_on f (set xs)" by (simp add: distinct_map)
  have "\<not> (f x = f r \<and> P x)" if "x \<in> set xs" for x
    using inj_onD [OF inj _ that assms(2)] assms(3) by auto
  then show ?thesis by (simp add: find_None_iff)
qed

lemma live_file_row:
  assumes "distinct (map f_id (files st))" and "r \<in> set (files st)"
  shows "live_file (f_id r) st = (if f_is_deleted r then None else Some r)"
  using find_distinct_id [OF assms, of "\<lambda>x. \<not> f_is_deleted x"]
    find_distinct_none [OF assms, of "\<lambda>x. \<not> f_is_deleted x"]
  by (simp add: live_file_def)

lemma js_expired_iff:
  "js_expired now r \<longleftrightarrow> \<not> (f_expires_at r = None \<or> (\<exists>e. f_expires_at r = Some e \<and> now \<le> e))"
  by (auto simp: js_expired_def split: option.splits)

lemma list_files_ids:
  "set (map fi_id (list_files now q lim off st)) \<subseteq>
   f_id ` {f \<in> set (files st). \<not> f_is_deleted f \<and> device_filter q f \<and> sql_not_expired now f}"
proof -
  have "set (sql_limit lim off xs) \<subseteq> set xs" for xs :: "file_row list"
    by (auto simp: sql_limit_def Let_def dest: in_set_takeD in_set_dropD)
  then show ?thesis
    by (fastforce simp: list_files_def joined_def Let_def)
qed

lemma deleted_not_listed:
  assumes "distinct (map f_id (files st))" and "r \<in> set (files st)" and "f_is_deleted r"
  shows "f_id r \<notin> set (map fi_id (list_files now q lim off st))"
proof
  assume "f_id r \<in> set (map fi_id (list_files now q lim off st))"
  with list_files_ids [of now q lim off st]
  have "f_id r \<in> f_id ` {f \<in> set (files st). \<not> f_is_deleted f \<and> device_filter q f \<and>
                             sql_not_expired now f}"
    by (rule subsetD)
  then obtain f where "f_id r = f_id f"
    and "f \<in> {f \<in> set (files st). \<not> f_is_deleted f \<and> device_filter q f \<and>
                             sql_not_expired now f}"
    by (rule imageE)
  then have f: "f \<in> set (files st)" "\<not> f_is_deleted f" "f_id f = f_id r"
    by simp_all
  from assms(1) have "inj_on f_id (set (files st))" by (simp add: distinct_map)
  from inj_onD [OF this f(3) f(1) assms(2)] f(2) assms(3) show False by simp
qed

text \<open>
  C5, as the code decides it. For every file row of a table with unique ids and every
  time \<open>now\<close>: a deleted row gets 404 from info and from download and is in no
  listing; a row that is not deleted and whose expiry lies before \<open>now\<close> gets 410
  from both; a row that is not deleted and whose expiry is null or not before \<open>now\<close>
  (\<open>now \<le> expiresAt\<close>) is returned by info and passes both checks of download.
  (What the listing does with an expiry is not part of this statement.)
\<close>

theorem info_download_accessibility:
  assumes "distinct (map f_id (files st))" and "r \<in> set (files st)"
  shows "(f_is_deleted r \<longrightarrow>
            file_info now (f_id r) st = Inl (404, ''File not found'') \<and>
            download lib cfg now (f_id r) st = (Inl (404, ''File not found''), st) \<and>
            f_id r \<notin> set (map fi_id (list_files now q lim off st))) \<and>
         (\<not> f_is_deleted r \<and> (\<exists>e. f_expires_at r = Some e \<and> e < now) \<longrightarrow>
            file_info now (f_id r) st = Inl (410, ''File expired'') \<and>
            download lib cfg now (f_id r) st = (Inl (410, ''File expired''), st)) \<and>
         (\<not> f_is_deleted r \<and> (f_expires_at r = None \<or> (\<exists>e. f_expires_at r = Some e \<and> now \<le> e)) \<longrightarrow>
            file_info now (f_id r) st = Inr (joined st r) \<and>
            fst (download lib cfg now (f_id r) st) \<noteq> Inl (404, ''File not found'') \<and>
            fst (download lib cfg now (f_id r) st) \<noteq> Inl (410, ''File expired''))"
proof (intro conjI impI)
  assume d: "f_is_deleted r"
  with live_file_row [OF assms] have l: "live_file (f_id r) st = None" by simp
  then show "file_info now (f_id r) st = Inl (404, ''File not found'')"
    by (simp add: file_info_def)
  from l show "download lib cfg now (f_id r) st = (Inl (404, ''File not found''), st)"
    by (simp add: download_def)
  from d show "f_id r \<notin> set (map fi_id (list_files now q lim off st))"
    by (rule deleted_not_listed [OF assms])
next
  assume a: "\<not> f_is_deleted r \<and> (\<exists>e. f_expires_at r = Some e \<and> e < now)"
  with live_file_row [OF assms] have l: "live_file (f_id r) st = Some r" by simp
  from a have x: "js_expired now r" by (auto simp: js_expired_def)
  from l x show "file_info now (f_id r) st = Inl (410, ''File expired'')"
    by (simp add: file_info_def)
  from l x show "download lib cfg now (f_id r) st = (Inl (410, ''File expired''), st)"
    by (simp add: download_def)
next
  assume a: "\<not> f_is_deleted r \<and> (f_expires_at r = None \<or> (\<exists>e. f_expires_at r = Some e \<and> now \<le> e))"
  with live_file_row [OF assms] have l: "live_file (f_id r) st = Some r" by simp
  from a have x: "\<not> js_expired now r" by (simp add: js_expired_iff)
  from l x show "file_info now (f_id r) st = Inr (joined st r)"
    by (simp add: file_info_def)
  from l x show "fst (download lib cfg now (f_id r) st) \<noteq> Inl (404, ''File not found'')"
    by (simp add: download_def split: sum.splits)
  from l x show "fst (download lib cfg now (f_id r) st) \<noteq> Inl (410, ''File expired'')"
    by (simp add: download_def split: sum.splits)
qed

lemma space_width_0: "space_width ''0'' = 0"
  by (simp add: space_width_def is_space_def)

lemma parseInt_0: "parseInt ''0'' = Some 0"
  by (simp add: parseInt_def space_width_0 parse_unsigned_def parse_digits_def is_digit_def
        digit_val_def digits_value_def)


lemma upload_supplied_state:
  assumes "up_deviceId req = Some d" and "d \<noteq> []"
    and "up_file req = Some f"
    and "disk st (uf_path f) = Some pt"
    and "fresh_fileId env \<notin> set (map f_id (files st))"
    and "expiry cfg now req = Inr ex"
  shows "fst (upload lib cfg now env req st) =
           Inr \<lparr>ok_fileId = fresh_fileId env, ok_filename = uf_originalname f,
                ok_size = uf_size f, ok_mimeType = uf_mimetype f,
                ok_deviceId = d, ok_expiresAt = ex, ok_uploadTime = now\<rparr>"
    and "files (snd (upload lib cfg now env req st)) =
           files st @ [new_file_row now env f d (generateKey lib (key_bytes env)) ex]"
    and "devices (snd (upload lib cfg now env req st)) =
           devices (rename_device (up_deviceName req) d st)"
    and "disk (snd (upload lib cfg now env req st)) =
           ((disk st)(uf_path f @ ''.enc'' \<mapsto>
               encryptFile lib (iv_bytes env) pt (generateKey lib (key_bytes env))))
             (uf_path f := None)"
proof -
  from assms(1,2) have s: "source_device now env req st = Inr (d, st)"
    by (simp add: source_device_def)
  from store_encrypted_ok [OF assms(4), of lib env] obtain st2 where
    e: "store_encrypted lib env f st = Inr (generateKey lib (key_bytes env), st2)"
    and 2: "devices st2 = devices st" "files st2 = files st"
      "disk st2 = ((disk st)(uf_path f @ ''.enc'' \<mapsto>
                         encryptFile lib (iv_bytes env) pt (generateKey lib (key_bytes env))))
                      (uf_path f := None)" by blast
  let ?row = "new_file_row now env f d (generateKey lib (key_bytes env)) ex"
  from assms(5) 2 have i: "insert_file ?row st2 = Inr (st2\<lparr>files := files st2 @ [?row]\<rparr>)"
    by (simp add: insert_file_def new_file_row_def)
  let ?st' = "rename_device (up_deviceName req) d (st2\<lparr>files := files st2 @ [?row]\<rparr>)"
  have u: "upload lib cfg now env req st =
       (Inr \<lparr>ok_fileId = fresh_fileId env, ok_filename = uf_originalname f,
                ok_size = uf_size f, ok_mimeType = uf_mimetype f,
                ok_deviceId = d, ok_expiresAt = ex, ok_uploadTime = now\<rparr>, ?st')"
    by (simp add: upload_def assms(3) upload_try_def s e assms(6) i)
  show "fst (upload lib cfg now env req st) =
           Inr \<lparr>ok_fileId = fresh_fileId env, ok_filename = uf_originalname f,
                ok_size = uf_size f, ok_mimeType = uf_mimetype f,
                ok_deviceId = d, ok_expiresAt = ex, ok_uploadTime = now\<rparr>"
    by (simp add: u)
  show "files (snd (upload lib cfg now env req st)) = files st @ [?row]"
    by (simp add: u rename_device_frame 2)
  show "devices (snd (upload lib cfg now env req st)) =
           devices (rename_device (up_deviceName req) d st)"
    unfolding u snd_conv by (rule rename_device_cong) (simp add: 2)
  show "disk (snd (upload lib cfg now env req st)) =
           ((disk st)(uf_path f @ ''.enc'' \<mapsto>
               encryptFile lib (iv_bytes env) pt (generateKey lib (key_bytes env))))
             (uf_path f := None)"
    by (simp add: u rename_device_frame 2)
qed

lemma sample_expiring_facts:
  "up_deviceId sample_expiring = Some ''d1''" "''d1'' \<noteq> []"
  "up_file sample_expiring = Some sample_file"
  "disk sample_server (uf_path sample_file) = Some [104, 105]"
  "fresh_fileId sample_env \<notin> set (map f_id (files sample_server))"
  "expiry sample_cfg 1000 sample_expiring = Inr (Some 1000)"
  by (simp_all add: sample_expiring_def sample_upload_def sample_server_def sample_file_def
      sample_env_def expiry_def date_plus_def parseInt_0 valid_time_def)

lemma sample_expiring_row:
  "new_file_row 1000 sample_env sample_file ''d1'' (generateKey sample_lib (key_bytes sample_env))
     (Some 1000) = sample_row"
  by (simp add: new_file_row_def sample_env_def sample_file_def sample_row_def basename_def)

theorem info_download_accessibility_witness:
  "file_info 1001 ''f1'' sample_stored = Inl (410, ''File expired'') \<and>
   download sample_lib sample_cfg 1001 ''f1'' sample_stored =
     (Inl (410, ''File expired''), sample_stored) \<and>
   file_info 1000 ''f1'' sample_stored = Inr (joined sample_stored sample_row) \<and>
   file_info 1000 ''f1'' (mark_deleted ''f1'' sample_stored) = Inl (404, ''File not found'')"
proof -
  have d: "distinct (map f_id (files sample_stored))" and r: "sample_row \<in> set (files sample_stored)"
    by (simp_all add: sample_stored_def)
  have i: "f_id sample_row = ''f1''" "\<not> f_is_deleted sample_row"
    "f_expires_at sample_row = Some 1000"
    by (simp_all add: sample_row_def)
  have d': "distinct (map f_id (files (mark_deleted ''f1'' sample_stored)))"
    and r': "sample_row\<lparr>f_is_deleted := True\<rparr> \<in> set (files (mark_deleted ''f1'' sample_stored))"
    by (simp_all add: sample_stored_def mark_deleted_def i)
  from info_download_accessibility [OF d r, of 1001 sample_lib sample_cfg None 50 0] i
  have a: "file_info 1001 ''f1'' sample_stored = Inl (410, ''File expired'')"
    "download sample_lib sample_cfg 1001 ''f1'' sample_stored =
     (Inl (410, ''File expired''), sample_stored)" by simp_all
  from info_download_accessibility [OF d r, of 1000 sample_lib sample_cfg None 50 0] i
  have b: "file_info 1000 ''f1'' sample_stored = Inr (joined sample_stored sample_row)" by simp
  from info_download_accessibility [OF d' r', of 1000 sample_lib sample_cfg None 50 0] i
  have c: "file_info 1000 ''f1'' (mark_deleted ''f1'' sample_stored) = Inl (404, ''File not found'')"
    by simp
  from a b c show ?thesis by simp
qed

text \<open>
  C5 as stated fails at \<open>now = expiresAt\<close>. A file uploaded at time 1000 with
  \<open>expiresInMinutes = 0\<close> gets \<open>expires_at = 1000\<close>; at time 1000 the predicate of
  the specification calls it inaccessible, yet info returns the record and download
  returns the plaintext: both handlers test \<open>now > expiresAt\<close>.
\<close>

theorem expiry_boundary_counterexample:
  "files (snd (upload sample_lib sample_cfg 1000 sample_env sample_expiring sample_server)) =
     [sample_row] \<and>
   f_expires_at sample_row = Some 1000 \<and>
   \<not> spec_accessible 1000 sample_row \<and>
   file_info 1000 ''f1''
     (snd (upload sample_lib sample_cfg 1000 sample_env sample_expiring sample_server)) =
     Inr (joined (snd (upload sample_lib sample_cfg 1000 sample_env sample_expiring
                         sample_server)) sample_row) \<and>
   fst (download sample_lib sample_cfg 1000 ''f1''
     (snd (upload sample_lib sample_cfg 1000 sample_env sample_expiring sample_server))) =
     Inr [104, 105]"
proof -
  let ?st = "snd (upload sample_lib sample_cfg 1000 sample_env sample_expiring sample_server)"
  note u = upload_supplied_state [OF sample_expiring_facts, of sample_lib]
  have s: "files sample_server = []" by (simp add: sample_server_def)
  have f: "files ?st = [sample_row]"
    by (simp only: u(2) sample_expiring_row s append_Nil)
  have i: "f_id sample_row = ''f1''" "\<not> f_is_deleted sample_row"
    "f_expires_at sample_row = Some 1000"
    "f_encryption_key sample_row = generateKey sample_lib [1, 2, 3]"
    "f_filename sample_row = ''u1.txt.enc''"
    by (simp_all add: sample_row_def)
  have l: "live_file ''f1'' ?st = Some sample_row"
    by (simp add: live_file_def f i)
  have x: "\<not> js_expired 1000 sample_row"
    by (simp add: js_expired_def i)
  have e: "uf_path sample_file @ ''.enc'' = ''uploads/u1.txt.enc''"
    "uf_path sample_file = ''uploads/u1.txt''"
    "iv_bytes sample_env = replicate 16 7" "key_bytes sample_env = [1, 2, 3]"
    by (simp_all add: sample_file_def sample_env_def)
  have d: "disk ?st ''uploads/u1.txt.enc'' =
      Some (encryptFile sample_lib (replicate 16 7) [104, 105] (generateKey sample_lib [1, 2, 3]))"
    by (simp add: u(4) e)
  have r: "decryptFile sample_lib
     (encryptFile sample_lib (replicate 16 7) [104, 105] (generateKey sample_lib [1, 2, 3]))
     (generateKey sample_lib [1, 2, 3]) = Inr [104, 105]"
    by (simp add: decryptFile_def encryptFile_def createCipher_def createDecipher_def
        ivLength_def tagLength_def sample_lib_def sample_tag_def sample_pad_def generateKey_def)
  have c: "uploadsDir sample_cfg = ''uploads''" by (simp add: sample_cfg_def)
  have "fst (download sample_lib sample_cfg 1000 ''f1'' ?st) = Inr [104, 105]"
    by (simp add: download_def l x i existsSync_def readFileSync_def path_join_def c d r)
  moreover have "file_info 1000 ''f1'' ?st = Inr (joined ?st sample_row)"
    by (simp add: file_info_def l x)
  moreover have "\<not> spec_accessible 1000 sample_row"
    by (simp add: spec_accessible_def i)
  ultimately show ?thesis using f i(3) by simp
qed

lemma allowed_change_refl: "allowed_change r r"
  by (simp add: allowed_change_def)

lemma allowed_change_keeps:
  "allowed_change r r' \<Longrightarrow> f_id r' = f_id r \<and> (f_is_deleted r \<longrightarrow> f_is_deleted r')"
  by (auto simp: allowed_change_def)

lemma evolves_refl: "evolves xs xs"
  unfolding evolves_def
  by (rule exI [of _ "\<lambda>r. r"], rule exI [of _ "[]"]) (simp add: allowed_change_refl)

lemma evolves_map:
  "(\<And>r. allowed_change r (g r)) \<Longrightarrow> evolves xs (map g xs)"
  unfolding evolves_def
  by (rule exI [of _ g], rule exI [of _ "[]"]) simp

lemma evolves_append:
  "f_id row \<notin> set (map f_id xs) \<Longrightarrow> evolves xs (xs @ [row])"
  unfolding evolves_def
  by (rule exI [of _ "\<lambda>r. r"], rule exI [of _ "[row]"]) (simp add: allowed_change_refl)

lemma evolves_nth:
  assumes "evolves xs ys" and "j < length xs"
  shows "j < length ys \<and> allowed_change (xs ! j) (ys ! j)"
proof -
  from assms(1) obtain g extra where ys: "ys = map g xs @ extra"
    and g: "\<forall>r. allowed_change r (g r)"
    unfolding evolves_def by blast
  from ys assms(2) have "j < length ys" by simp
  moreover from ys assms(2) have "ys ! j = g (xs ! j)" by (simp add: nth_append)
  ultimately show ?thesis using g by simp
qed

lemma evolves_distinct:
  assumes "evolves xs ys" and "distinct (map f_id xs)"
  shows "distinct (map f_id ys)"
proof -
  from assms(1) obtain g extra where ys: "ys = map g xs @ extra"
    and g: "\<forall>r. allowed_change r (g r)"
    and x: "extra = [] \<or> (\<exists>row. extra = [row] \<and> f_id row \<notin> set (map f_id xs))"
    unfolding evolves_def by blast
  from g have "f_id (g r) = f_id r" for r using allowed_change_keeps by blast
  then have m: "map (f_id \<circ> g) xs = map f_id xs" by simp
  from x show ?thesis
  proof
    assume "extra = []"
    with ys have "map f_id ys = map (f_id \<circ> g) xs" by simp
    also note m
    finally have "map f_id ys = map f_id xs" .
    with assms(2) show ?thesis by (simp only:)
  next
    assume "\<exists>row. extra = [row] \<and> f_id row \<notin> set (map f_id xs)"
    then obtain row where e: "extra = [row]" and n: "f_id row \<notin> set (map f_id xs)" by blast
    from ys e have "map f_id ys = map (f_id \<circ> g) xs @ [f_id row]" by simp
    also note m
    finally have "map f_id ys = map f_id xs @ [f_id row]" .
    moreover from assms(2) n have "distinct (map f_id xs @ [f_id row])" by simp
    ultimately show ?thesis by (simp only:)
  qed
qed

lemma upload_evolves: "evolves (files st) (files (snd (upload lib cfg now env req st)))"
proof (cases "up_file req")
  case None
  then show ?thesis by (simp add: upload_def evolves_refl)
next
  case (Some f)
  show ?thesis
  proof (cases "upload_try lib cfg now env req f st")
    case (Inl x)
    obtain e st' where x: "x = (e, st')" by (cases x)
    from upload_try_Inl [of lib cfg now env req f st e st'] Inl x
    have "files st' = files st" by simp
    with Inl x Some show ?thesis
      by (simp add: upload_def upload_catch_frame evolves_refl)
  next
    case (Inr y)
    obtain ok st' where y: "y = (ok, st')" by (cases y)
    with Inr have "upload_try lib cfg now env req f st = Inr (ok, st')" by simp
    then obtain src ex where
      "files st' = files st @ [new_file_row now env f src (generateKey lib (key_bytes env)) ex]"
      and "fresh_fileId env \<notin> set (map f_id (files st))"
      by (rule upload_try_Inr)
    then have "evolves (files st) (files st')"
      using evolves_append [of "new_file_row now env f src (generateKey lib (key_bytes env)) ex"
          "files st"]
      by (simp add: new_file_row_def)
    with Inr y Some show ?thesis by (simp add: upload_def)
  qed
qed

lemma count_download_evolves: "evolves (files st) (files (count_download fileId st))"
  unfolding count_download_def
  by (simp, rule evolves_map) (simp add: allowed_change_def)

lemma download_evolves: "evolves (files st) (files (snd (download lib cfg now fileId st)))"
  by (simp add: download_def evolves_refl count_download_evolves
      split: option.splits sum.splits)

lemma remove_blob_files: "files (remove_blob cfg file st) = files st"
  by (auto simp: remove_blob_def split: sum.splits dest!: unlinkSync_frame)

lemma mark_deleted_evolves: "evolves (files st) (files (mark_deleted fileId st))"
  unfolding mark_deleted_def
  by (simp, rule evolves_map) (simp add: allowed_change_def)

lemma delete_file_evolves: "evolves (files st) (files (snd (delete_file cfg fileId st)))"
  by (simp add: delete_file_def evolves_refl remove_blob_files mark_deleted_evolves
      split: option.splits)

lemma sweep_files:
  "files (fold (\<lambda>file s. remove_blob cfg file (mark_deleted (f_id file) s)) xs st) =
   map (\<lambda>f. if f_id f \<in> f_id ` set xs then f\<lparr>f_is_deleted := True\<rparr> else f) (files st)"
proof (induction xs arbitrary: st)
  case Nil
  then show ?case by simp
next
  case (Cons x xs)
  have "files (remove_blob cfg x (mark_deleted (f_id x) st)) =
        map (\<lambda>f. if f_id f = f_id x then f\<lparr>f_is_deleted := True\<rparr> else f) (files st)"
    by (simp add: remove_blob_files mark_deleted_def)
  then show ?case
    by (simp add: Cons.IH comp_def)
qed

lemma cleanup_evolves: "evolves (files st) (files (cleanup cfg now st))"
  unfolding cleanup_def sweep_files
  by (rule evolves_map) (simp add: allowed_change_def)

lemma step_evolves: "evolves (files st) (files (step lib cfg now r st))"
  by (cases r)
     (simp_all add: evolves_refl upload_evolves download_evolves delete_file_evolves
        cleanup_evolves)

lemma step_keeps_deleted:
  assumes "distinct (map f_id (files st))" and "i < length (files st)"
    and "f_is_deleted (files st ! i)"
  shows "distinct (map f_id (files (step lib cfg now r st))) \<and>
         i < length (files (step lib cfg now r st)) \<and>
         f_id (files (step lib cfg now r st) ! i) = f_id (files st ! i) \<and>
         f_is_deleted (files (step lib cfg now r st) ! i)"
  using evolves_distinct [OF step_evolves assms(1), of lib cfg now r]
    evolves_nth [OF step_evolves assms(2), of lib cfg now r] assms(3)
    allowed_change_keeps [of "files st ! i" "files (step lib cfg now r st) ! i"]
  by simp

lemma run_keeps_deleted:
  assumes "distinct (map f_id (files st))" and "i < length (files st)"
    and "f_is_deleted (files st ! i)"
  shows "distinct (map f_id (files (run lib cfg reqs st))) \<and>
         i < length (files (run lib cfg reqs st)) \<and>
         f_id (files (run lib cfg reqs st) ! i) = f_id (files st ! i) \<and>
         f_is_deleted (files (run lib cfg reqs st) ! i)"
  using assms
proof (induction reqs arbitrary: st)
  case Nil
  then show ?case by simp
next
  case (Cons a reqs)
  obtain now r where a: "a = (now, r)" by (cases a)
  from step_keeps_deleted [OF Cons.prems, of lib cfg now r]
  have s: "distinct (map f_id (files (step lib cfg now r st)))"
    "i < length (files (step lib cfg now r st))"
    "f_id (files (step lib cfg now r st) ! i) = f_id (files st ! i)"
    "f_is_deleted (files (step lib cfg now r st) ! i)" by simp_all
  from Cons.IH [OF s(1,2,4)] s(3) a show ?case by simp
qed


text \<open>
  C6. In a file table with unique ids, a row whose deletion flag is set keeps its
  place, its id and the flag through every sequence of list, upload, download, info,
  delete and cleanup requests, at whatever times and with whatever inputs; after any
  such sequence info and download answer 404 for its id and no listing contains it.
  And one request changes an existing row in no other way than by adding one to its
  download count or by setting its deletion flag.
\<close>

theorem deleted_is_final:
  assumes "distinct (map f_id (files st))" and "i < length (files st)"
    and "f_is_deleted (files st ! i)"
  shows "i < length (files (run lib cfg reqs st)) \<and>
         f_id (files (run lib cfg reqs st) ! i) = f_id (files st ! i) \<and>
         f_is_deleted (files (run lib cfg reqs st) ! i) \<and>
         file_info now (f_id (files st ! i)) (run lib cfg reqs st) =
           Inl (404, ''File not found'') \<and>
         download lib cfg now (f_id (files st ! i)) (run lib cfg reqs st) =
           (Inl (404, ''File not found''), run lib cfg reqs st) \<and>
         f_id (files st ! i) \<notin> set (map fi_id (list_files now q lim off (run lib cfg reqs st))) \<and>
         (\<forall>j < length (files s).
            j < length (files (step lib cfg t r s)) \<and>
            allowed_change (files s ! j) (files (step lib cfg t r s) ! j))"
proof -
  let ?st' = "run lib cfg reqs st"
  let ?r = "files ?st' ! i"
  from run_keeps_deleted [OF assms, of lib cfg reqs]
  have k: "distinct (map f_id (files ?st'))" "i < length (files ?st')"
    "f_id ?r = f_id (files st ! i)" "f_is_deleted ?r" by simp_all
  from k(2) have m: "?r \<in> set (files ?st')" by simp
  from live_file_row [OF k(1) m] k(3,4)
  have l: "live_file (f_id (files st ! i)) ?st' = None" by simp
  have "file_info now (f_id (files st ! i)) ?st' = Inl (404, ''File not found'')"
    by (simp add: file_info_def l)
  moreover have "download lib cfg now (f_id (files st ! i)) ?st' =
      (Inl (404, ''File not found''), ?st')"
    by (simp add: download_def l)
  moreover from deleted_not_listed [OF k(1) m k(4), of now q lim off] k(3)
  have "f_id (files st ! i) \<notin> set (map fi_id (list_files now q lim off ?st'))" by simp
  moreover have "\<forall>j < length (files s).
            j < length (files (step lib cfg t r s)) \<and>
            allowed_change (files s ! j) (files (step lib cfg t r s) ! j)"
    using evolves_nth [OF step_evolves, of _ s lib cfg t r] by blast
  ultimately show ?thesis using k by simp
qed

theorem deleted_is_final_witness:
  "f_is_deleted (files (run sample_lib sample_cfg sample_requests
                   (mark_deleted ''f1'' sample_stored)) ! 0) \<and>
   file_info 6000 ''f1'' (run sample_lib sample_cfg sample_requests
                   (mark_deleted ''f1'' sample_stored)) = Inl (404, ''File not found'') \<and>
   ''f1'' \<notin> set (map fi_id (list_files 6000 None 50 0
                   (run sample_lib sample_cfg sample_requests
                      (mark_deleted ''f1'' sample_stored)))) \<and>
   allowed_change (files sample_stored ! 0)
     (files (step sample_lib sample_cfg 1000 (Download ''f1'') sample_stored) ! 0)"
proof -
  have h: "distinct (map f_id (files (mark_deleted ''f1'' sample_stored)))"
    "0 < length (files (mark_deleted ''f1'' sample_stored))"
    "f_is_deleted (files (mark_deleted ''f1'' sample_stored) ! 0)"
    "f_id (files (mark_deleted ''f1'' sample_stored) ! 0) = ''f1''"
    "0 < length (files sample_stored)"
    by (simp_all add: mark_deleted_def sample_stored_def sample_row_def)
  from deleted_is_final [OF h(1-3), of sample_lib sample_cfg sample_requests 6000 None 50 0
      sample_stored 1000 "Download ''f1''"] h(4,5)
  show ?thesis by simp
qed

section \<open>The listing's comparison of text\<close>

text \<open>
  An instance of what the two SQL filters compare. A file whose expiry is
  2024-05-01T10:00:00.000Z is expired for info and download at 12:00:00 of the same
  day; for the listing's filter it is not expired, and the cleanup's filter does not
  select it: the stored text and the text of \<open>datetime('now')\<close> agree up to the
  day and then differ in \<open>T\<close> against a space.
\<close>

lemma toISOString_example: "toISOString 1714557600000 = ''2024-05-01T10:00:00.000Z''"
  by code_simp

lemma sqlite_now_example: "sqlite_now 1714564800000 = ''2024-05-01 12:00:00''"
  by code_simp

lemma same_day_expiry_example:
  "js_expired 1714564800000 (sample_row\<lparr>f_expires_at := Some 1714557600000\<rparr>) \<and>
   sql_not_expired 1714564800000 (sample_row\<lparr>f_expires_at := Some 1714557600000\<rparr>) \<and>
   \<not> sql_expired 1714564800000 (sample_row\<lparr>f_expires_at := Some 1714557600000\<rparr>)"
  by (simp add: js_expired_def sql_not_expired_def sql_expired_def toISOString_example
      sqlite_now_example)

end
